theory Spec2Isabelle
  imports Main
begin

section \<open>An HTTP front for one bucket of an object store\<close>

text \<open>
  The program is \<^verbatim>\<open>src/server/main.go\<close>; \<^verbatim>\<open>src/unnamed/part_000\<close> is a variant
  of the same file that reads no \<^verbatim>\<open>.env\<close> file and asks once whether the bucket exists.
  The three request handlers are the same in both files.

  The object-storage client (\<^verbatim>\<open>minio-go\<close>), \<^verbatim>\<open>net/http\<close>, \<^verbatim>\<open>io\<close>, \<^verbatim>\<open>os\<close> and
  \<^verbatim>\<open>godotenv\<close> are libraries, not code of the program. The storage client is a parameter
  of the model: a record of operations over a backend state of any type. The response
  writer of \<^verbatim>\<open>net/http\<close> is modelled by its documented contract.
\<close>

subsection \<open>Values\<close>

text \<open>A byte sequence is a list of \<^typ>\<open>char\<close>, which is an 8-bit value. A Go \<^verbatim>\<open>error\<close> is
  modelled by its message, the text that \<^verbatim>\<open>%v\<close> prints.\<close>

type_synonym bytes = "char list"

text \<open>\<^verbatim>\<open>credentials.NewStaticV4(id, secret, token)\<close> and \<^verbatim>\<open>minio.Options\<close>.\<close>

record credentials =
  AccessKeyID :: string
  SecretAccessKey :: string
  SessionToken :: string

record options =
  Creds :: credentials
  Secure :: bool

definition NewStaticV4 :: "string \<Rightarrow> string \<Rightarrow> string \<Rightarrow> credentials" where
  "NewStaticV4 ident secret tok =
     \<lparr>AccessKeyID = ident, SecretAccessKey = secret, SessionToken = tok\<rparr>"

text \<open>The handle \<^verbatim>\<open>GetObject\<close> returns is a reader: it delivers its chunks in order and
  then ends, with end-of-file (\<open>read_err = None\<close>) or with a read error. A reader with
  no chunk and a read error is one whose first read fails.\<close>

record object =
  chunks :: "bytes list"
  read_err :: "string option"

text \<open>\<^verbatim>\<open>minio.ObjectInfo\<close>, the fields the program reads.\<close>

record object_info =
  Key :: string
  Err :: "string option"

subsection \<open>The storage client, a parameter\<close>

text \<open>
  \<open>'c\<close> is the client handle (\<^verbatim>\<open>*minio.Client\<close>), \<open>'s\<close> the state of everything behind
  it. Every operation returns its Go result and the state after the call. A result
  \<^verbatim>\<open>(v, err)\<close> is a sum with the error on the left; a result that is only an error is an
  option. \<^verbatim>\<open>ListObjects\<close> returns a channel, modelled by the list of the values
  received from it until it is closed.
\<close>

record ('c, 's) backend =
  New :: "'s \<Rightarrow> string \<Rightarrow> options \<Rightarrow> (string + 'c) \<times> 's"
  BucketExists :: "'c \<Rightarrow> 's \<Rightarrow> string \<Rightarrow> (string + bool) \<times> 's"
  MakeBucket :: "'c \<Rightarrow> 's \<Rightarrow> string \<Rightarrow> string option \<times> 's"
  PutObject :: "'c \<Rightarrow> 's \<Rightarrow> string \<Rightarrow> string \<Rightarrow> bytes \<Rightarrow> int \<Rightarrow> string option \<times> 's"
  GetObject :: "'c \<Rightarrow> 's \<Rightarrow> string \<Rightarrow> string \<Rightarrow> (string + object) \<times> 's"
  ListObjects :: "'c \<Rightarrow> 's \<Rightarrow> string \<Rightarrow> bool \<Rightarrow> object_info list \<times> 's"

subsection \<open>What a run does: the backend state and the trace\<close>

datatype handler = UploadH | DownloadH | ListH

text \<open>An event of a call to a library carries the arguments and what came back: the error
  (\<open>None\<close> for \<^verbatim>\<open>nil\<close>), and for \<^verbatim>\<open>BucketExists\<close> the answer.\<close>

datatype event =
    Log string
  | Sleep nat
  | Call_New string options "string option"
  | Call_BucketExists string "string + bool"
  | Call_MakeBucket string "string option"
  | Call_PutObject string string bytes int "string option"
  | Call_GetObject string string "string option"
  | Call_ListObjects string bool
  | Call_Close
  | Call_HandleFunc string handler
  | Call_ListenAndServe string

record 's world =
  bstate :: 's
  trace :: "event list"

definition emit :: "event \<Rightarrow> 's world \<Rightarrow> 's world" where
  "emit e w = w\<lparr>trace := trace w @ [e]\<rparr>"

definition called :: "event \<Rightarrow> 's \<Rightarrow> 's world \<Rightarrow> 's world" where
  "called e s w = w\<lparr>bstate := s, trace := trace w @ [e]\<rparr>"

text \<open>The events of a request handler, and the events of start-up before the listener.\<close>

fun request_event :: "event \<Rightarrow> bool" where
  "request_event (Call_PutObject _ _ _ _ _) = True"
| "request_event (Call_GetObject _ _ _) = True"
| "request_event (Call_ListObjects _ _) = True"
| "request_event Call_Close = True"
| "request_event _ = False"

fun startup_event :: "event \<Rightarrow> bool" where
  "startup_event (Log _) = True"
| "startup_event (Sleep _) = True"
| "startup_event (Call_New _ _ _) = True"
| "startup_event (Call_BucketExists _ _) = True"
| "startup_event (Call_MakeBucket _ _) = True"
| "startup_event (Call_HandleFunc _ _) = True"
| "startup_event _ = False"


text \<open>The package-level variables of the program.\<close>

record 'c globals =
  minioClient :: "'c option"
  bucketName :: string
  mux :: "(string \<times> handler) list"

subsection \<open>Requests and the response writer\<close>

text \<open>\<^verbatim>\<open>r.URL.Query()\<close> is a map from a parameter to the list of its values, and \<^verbatim>\<open>Get\<close>
  returns the first value, or the empty string when there is none.\<close>

record request =
  url_path :: string
  url_query :: "string \<rightharpoonup> string list"
  req_body :: bytes

definition Query_Get :: "(string \<rightharpoonup> string list) \<Rightarrow> string \<Rightarrow> string" where
  "Query_Get q k = (case q k of None \<Rightarrow> [] | Some [] \<Rightarrow> [] | Some (v # _) \<Rightarrow> v)"

text \<open>
  \<^verbatim>\<open>http.ResponseWriter\<close>. The header map can be changed at any time, but the status and
  the headers of the response are those at the first \<^verbatim>\<open>WriteHeader\<close>: a later
  \<^verbatim>\<open>WriteHeader\<close> is ignored, and a \<^verbatim>\<open>Write\<close> before any \<^verbatim>\<open>WriteHeader\<close> does
  \<^verbatim>\<open>WriteHeader(200)\<close> first. The writer accepts every byte written to it: a client that
  goes away is outside the model.
\<close>

record response_writer =
  header :: "string \<rightharpoonup> string"
  wroteHeader :: bool
  status :: nat
  sent_header :: "string \<rightharpoonup> string"
  body :: bytes

definition new_writer :: response_writer where
  "new_writer = \<lparr>header = Map.empty, wroteHeader = False, status = 0,
                  sent_header = Map.empty, body = []\<rparr>"

definition Header_Set :: "response_writer \<Rightarrow> string \<Rightarrow> string \<Rightarrow> response_writer" where
  "Header_Set rw k v = rw\<lparr>header := (header rw)(k \<mapsto> v)\<rparr>"

definition WriteHeader :: "response_writer \<Rightarrow> nat \<Rightarrow> response_writer" where
  "WriteHeader rw code =
     (if wroteHeader rw then rw
      else rw\<lparr>wroteHeader := True, status := code, sent_header := header rw\<rparr>)"

definition Write :: "response_writer \<Rightarrow> bytes \<Rightarrow> response_writer" where
  "Write rw bs =
     (let rw1 = (if wroteHeader rw then rw else WriteHeader rw 200)
      in rw1\<lparr>body := body rw1 @ bs\<rparr>)"

definition newline :: char where
  "newline = CHR 0x0A"

definition Fprintln :: "response_writer \<Rightarrow> string \<Rightarrow> response_writer" where
  "Fprintln rw s = Write rw (s @ [newline])"

definition StatusOK :: nat where "StatusOK = 200"
definition StatusBadRequest :: nat where "StatusBadRequest = 400"
definition StatusInternalServerError :: nat where "StatusInternalServerError = 500"

text \<open>\<^verbatim>\<open>http.Error\<close>: two headers, the status, then the message and a newline.\<close>

definition http_Error :: "response_writer \<Rightarrow> string \<Rightarrow> nat \<Rightarrow> response_writer" where
  "http_Error rw msg code =
     (let rw1 = Header_Set rw ''Content-Type'' ''text/plain; charset=utf-8'';
          rw2 = Header_Set rw1 ''X-Content-Type-Options'' ''nosniff'';
          rw3 = WriteHeader rw2 code
      in Fprintln rw3 msg)"

text \<open>\<^verbatim>\<open>io.Copy(w, object)\<close>: each chunk read is written; the copy ends at end-of-file or
  at the read error. It returns the number of bytes copied and the error.\<close>

fun copy_chunks :: "response_writer \<Rightarrow> bytes list \<Rightarrow> response_writer" where
  "copy_chunks rw [] = rw"
| "copy_chunks rw (c # cs) = copy_chunks (Write rw c) cs"

definition io_Copy :: "response_writer \<Rightarrow> object \<Rightarrow> response_writer \<times> nat \<times> string option" where
  "io_Copy rw obj = (copy_chunks rw (chunks obj), length (concat (chunks obj)), read_err obj)"

subsection \<open>The handlers\<close>

text \<open>A handler returns the writer as it leaves it, or panics: a method of the client
  called through a nil \<^verbatim>\<open>minioClient\<close>.\<close>

datatype 'a result = Return 'a | Panic

fun result_writer :: "('a \<times> 'b) result \<Rightarrow> 'a option" where
  "result_writer (Return (rw, w)) = Some rw"
| "result_writer Panic = None"

fun result_world :: "('a \<times> 'b) result \<Rightarrow> 'b option" where
  "result_world (Return (rw, w)) = Some w"
| "result_world Panic = None"

definition uploadHandler ::
  "('c, 's) backend \<Rightarrow> 'c globals \<Rightarrow> response_writer \<Rightarrow> request \<Rightarrow> 's world
     \<Rightarrow> (response_writer \<times> 's world) result" where
  "uploadHandler be g rw r w =
     (let objectName = Query_Get (url_query r) ''key'' in
      if objectName = [] then
        Return (http_Error rw ''Missing 'key' query parameter'' StatusBadRequest, w)
      else
        (case minioClient g of
           None \<Rightarrow> Panic
         | Some c \<Rightarrow>
             (case PutObject be c (bstate w) (bucketName g) objectName (req_body r) (- 1) of
                (Some err, s') \<Rightarrow>
                  Return (http_Error rw (''Upload failed: '' @ err) StatusInternalServerError,
                          called (Call_PutObject (bucketName g) objectName (req_body r) (- 1)
                                    (Some err)) s' w)
              | (None, s') \<Rightarrow>
                  Return (Write rw (''Uploaded '' @ objectName @ '' successfully'' @ [newline]),
                          called (Call_PutObject (bucketName g) objectName (req_body r) (- 1)
                                    None) s' w))))"

definition downloadHandler ::
  "('c, 's) backend \<Rightarrow> 'c globals \<Rightarrow> response_writer \<Rightarrow> request \<Rightarrow> 's world
     \<Rightarrow> (response_writer \<times> 's world) result" where
  "downloadHandler be g rw r w =
     (let objectName = Query_Get (url_query r) ''key'' in
      if objectName = [] then
        Return (http_Error rw ''Missing 'key' query parameter'' StatusBadRequest, w)
      else
        (case minioClient g of
           None \<Rightarrow> Panic
         | Some c \<Rightarrow>
             (case GetObject be c (bstate w) (bucketName g) objectName of
                (Inl err, s') \<Rightarrow>
                  Return (http_Error rw (''Download failed: '' @ err) StatusInternalServerError,
                          called (Call_GetObject (bucketName g) objectName (Some err)) s' w)
              | (Inr obj, s') \<Rightarrow>
                  (let rw1 = Header_Set rw ''Content-Disposition'' ''inline'';
                       rw2 = WriteHeader rw1 StatusOK;
                       rw3 = fst (io_Copy rw2 obj)
                   in Return (rw3, emit Call_Close
                                (called (Call_GetObject (bucketName g) objectName None) s' w))))))"

text \<open>The body of the \<^verbatim>\<open>range\<close> loop of \<^verbatim>\<open>listHandler\<close>, over the values the channel
  delivers.\<close>

fun list_loop :: "response_writer \<Rightarrow> object_info list \<Rightarrow> response_writer" where
  "list_loop rw [] = rw"
| "list_loop rw (obj # objs) =
     (case Err obj of
        Some e \<Rightarrow> http_Error rw e StatusInternalServerError
      | None \<Rightarrow> list_loop (Fprintln rw (Key obj)) objs)"

definition listHandler ::
  "('c, 's) backend \<Rightarrow> 'c globals \<Rightarrow> response_writer \<Rightarrow> request \<Rightarrow> 's world
     \<Rightarrow> (response_writer \<times> 's world) result" where
  "listHandler be g rw r w =
     (case minioClient g of
        None \<Rightarrow> Panic
      | Some c \<Rightarrow>
          (case ListObjects be c (bstate w) (bucketName g) True of
             (objs, s') \<Rightarrow>
               Return (list_loop rw objs, called (Call_ListObjects (bucketName g) True) s' w)))"

text \<open>The handler a pattern is registered with.\<close>

fun call_handler ::
  "handler \<Rightarrow> ('c, 's) backend \<Rightarrow> 'c globals \<Rightarrow> response_writer \<Rightarrow> request \<Rightarrow> 's world
     \<Rightarrow> (response_writer \<times> 's world) result" where
  "call_handler UploadH = uploadHandler"
| "call_handler DownloadH = downloadHandler"
| "call_handler ListH = listHandler"

subsection \<open>The server around the handlers\<close>

text \<open>
  \<^verbatim>\<open>http.HandleFunc\<close> adds a pattern to the default mux. The three patterns of the program
  have no trailing slash and match their path only; any other path gets
  \<^verbatim>\<open>http.NotFound\<close>. A response the handler never wrote to is sent with status 200. A
  panic of a handler is recovered by the server: that request gets no response, and the
  process goes on.
\<close>

definition HandleFunc :: "string \<Rightarrow> handler \<Rightarrow> 'c globals \<Rightarrow> 'c globals" where
  "HandleFunc pattern h g = g\<lparr>mux := mux g @ [(pattern, h)]\<rparr>"

definition StatusNotFound :: nat where "StatusNotFound = 404"

definition finishRequest :: "response_writer \<Rightarrow> response_writer" where
  "finishRequest rw = (if wroteHeader rw then rw else WriteHeader rw StatusOK)"

definition ServeHTTP ::
  "('c, 's) backend \<Rightarrow> 'c globals \<Rightarrow> request \<Rightarrow> 's world
     \<Rightarrow> (response_writer \<times> 's world) result" where
  "ServeHTTP be g r w =
     (case map_of (mux g) (url_path r) of
        None \<Rightarrow> Return (http_Error new_writer ''404 page not found'' StatusNotFound, w)
      | Some h \<Rightarrow>
          (case call_handler h be g new_writer r w of
             Panic \<Rightarrow> Panic
           | Return (rw, w') \<Rightarrow> Return (finishRequest rw, w')))"

text \<open>Requests served one after the other: the list of responses (\<open>None\<close> for a request
  whose handler panicked) and the world after the last one.\<close>

fun serve_requests ::
  "('c, 's) backend \<Rightarrow> 'c globals \<Rightarrow> request list \<Rightarrow> 's world
     \<Rightarrow> response_writer option list \<times> 's world" where
  "serve_requests be g [] w = ([], w)"
| "serve_requests be g (r # rs) w =
     (case ServeHTTP be g r w of
        Panic \<Rightarrow> (case serve_requests be g rs w of (out, w') \<Rightarrow> (None # out, w'))
      | Return (rw, w1) \<Rightarrow>
          (case serve_requests be g rs w1 of (out, w') \<Rightarrow> (Some rw # out, w')))"

subsection \<open>Start-up\<close>

text \<open>
  What the process finds around it: its environment variables, what \<^verbatim>\<open>godotenv.Load\<close>
  does to them (its error, and the variables after it), and whether
  \<^verbatim>\<open>http.ListenAndServe\<close> fails before it accepts a connection (\<open>Some\<close> of its error) or
  serves.
\<close>

record env =
  environ :: "string \<rightharpoonup> string"
  godotenv_Load :: "(string \<rightharpoonup> string) \<Rightarrow> string option \<times> (string \<rightharpoonup> string)"
  ListenAndServe :: "string \<Rightarrow> string option"

definition Getenv :: "(string \<rightharpoonup> string) \<Rightarrow> string \<Rightarrow> string" where
  "Getenv vars k = (case vars k of None \<Rightarrow> [] | Some v \<Rightarrow> v)"

text \<open>
  How start-up ends: \<^verbatim>\<open>log.Fatal\<close> with its message, a call through a nil client, or
  the listener serving with the package-level variables it then has. A start-up that
  never ends has no outcome at all.
\<close>

datatype 'c outcome = Fatal string | Nil_Panic | Serving "'c globals"

text \<open>\<^verbatim>\<open>%d\<close> of a number that is not negative: its decimal digits.\<close>

definition digit :: "nat \<Rightarrow> char" where
  "digit d = ''0123456789'' ! d"

function fmt_d :: "nat \<Rightarrow> string" where
  "fmt_d n = (if 10 \<le> n then fmt_d (n div 10) @ [digit (n mod 10)] else [digit n])"
  by pat_completeness auto
termination
  by (relation "measure id") auto

declare fmt_d.simps [simp del]

text \<open>The connect loop, the same in both files: \<^verbatim>\<open>for { minioClient, err = minio.New(...);
  if err == nil { break }; log.Println(...); time.Sleep(2 * time.Second) }\<close>. The loop has
  no bound, so it is a partial function: no result means that it runs forever.\<close>

partial_function (option) connect ::
  "('c, 's) backend \<Rightarrow> string \<Rightarrow> options \<Rightarrow> 'c globals \<Rightarrow> 's world
     \<Rightarrow> ('c globals \<times> 's world) option" where
  "connect be endpoint opts g w =
     (case New be (bstate w) endpoint opts of
        (Inr c, s') \<Rightarrow>
          Some (g\<lparr>minioClient := Some c\<rparr>, called (Call_New endpoint opts None) s' w)
      | (Inl err, s') \<Rightarrow>
          connect be endpoint opts (g\<lparr>minioClient := None\<rparr>)
            (emit (Sleep 2)
               (emit (Log (''Waiting for MinIO to be ready: '' @ err))
                  (called (Call_New endpoint opts (Some err)) s' w))))"

declare connect.simps [code]

text \<open>One pass of "ensure bucket", after \<^verbatim>\<open>BucketExists\<close> has answered without error:
  lines 57 to 65 of \<^verbatim>\<open>src/server/main.go\<close>, lines 51 to 59 of \<^verbatim>\<open>part_000\<close>.\<close>

definition make_if_missing ::
  "('c, 's) backend \<Rightarrow> 'c \<Rightarrow> string \<Rightarrow> bool \<Rightarrow> 's world \<Rightarrow> string option \<times> 's world" where
  "make_if_missing be c bucket exists w =
     (if \<not> exists then
        (case MakeBucket be c (bstate w) bucket of
           (Some err, s') \<Rightarrow>
             (Some (''MakeBucket error: '' @ err), called (Call_MakeBucket bucket (Some err)) s' w)
         | (None, s') \<Rightarrow>
             (None, emit (Log (''Created bucket: '' @ bucket @ [newline]))
                      (called (Call_MakeBucket bucket None) s' w)))
      else (None, emit (Log (''Bucket already exists: '' @ bucket @ [newline])) w))"

text \<open>The loop of \<^verbatim>\<open>src/server/main.go\<close>, \<^verbatim>\<open>for i := 0; i < 10; i++\<close>, from the value
  of \<open>i\<close>. Its result is how it is left: \<open>None\<close> to go on to the routes, or the way the
  process ends.\<close>

function bucket_loop ::
  "('c, 's) backend \<Rightarrow> 'c globals \<Rightarrow> nat \<Rightarrow> 's world \<Rightarrow> 'c outcome option \<times> 's world" where
  "bucket_loop be g i w =
     (if i < 10 then
        (case minioClient g of
           None \<Rightarrow> (Some Nil_Panic, w)
         | Some c \<Rightarrow>
             (case BucketExists be c (bstate w) (bucketName g) of
                (Inr exists, s') \<Rightarrow>
                  (case make_if_missing be c (bucketName g) exists
                          (called (Call_BucketExists (bucketName g) (Inr exists)) s' w) of
                     (Some msg, w') \<Rightarrow> (Some (Fatal msg), w')
                   | (None, w') \<Rightarrow> (None, w'))
              | (Inl err, s') \<Rightarrow>
                  (let w1 = called (Call_BucketExists (bucketName g) (Inl err)) s' w;
                       w2 = emit (Log (''BucketExists error: '' @ err @ '' (attempt ''
                                        @ fmt_d (i + 1) @ ''/10). Retrying in 2s...'')) w1;
                       w3 = emit (Sleep 2) w2
                   in if i = 9 then
                        (Some (Fatal (''Failed to connect to MinIO after 10 attempts: '' @ err)), w3)
                      else bucket_loop be g (i + 1) w3)))
      else (None, w))"
  by pat_completeness auto
termination
  by (relation "measure (\<lambda>(be, g, i, w). 10 - i)") auto

declare bucket_loop.simps [simp del]

text \<open>The single query of \<^verbatim>\<open>part_000\<close>, lines 47 to 59.\<close>

definition bucket_once ::
  "('c, 's) backend \<Rightarrow> 'c globals \<Rightarrow> 's world \<Rightarrow> 'c outcome option \<times> 's world" where
  "bucket_once be g w =
     (case minioClient g of
        None \<Rightarrow> (Some Nil_Panic, w)
      | Some c \<Rightarrow>
          (case BucketExists be c (bstate w) (bucketName g) of
             (Inl err, s') \<Rightarrow>
               (Some (Fatal (''BucketExists error: '' @ err)),
                called (Call_BucketExists (bucketName g) (Inl err)) s' w)
           | (Inr exists, s') \<Rightarrow>
               (case make_if_missing be c (bucketName g) exists
                       (called (Call_BucketExists (bucketName g) (Inr exists)) s' w) of
                  (Some msg, w') \<Rightarrow> (Some (Fatal msg), w')
                | (None, w') \<Rightarrow> (None, w'))))"

text \<open>The end of \<^verbatim>\<open>main\<close> in both files: the three routes, then the listener.\<close>

definition routes_and_listen :: "env \<Rightarrow> 'c globals \<Rightarrow> 's world \<Rightarrow> 'c outcome \<times> 's world" where
  "routes_and_listen e g w =
     (let g1 = HandleFunc ''/upload'' UploadH g;
          w1 = emit (Call_HandleFunc ''/upload'' UploadH) w;
          g2 = HandleFunc ''/download'' DownloadH g1;
          w2 = emit (Call_HandleFunc ''/download'' DownloadH) w1;
          g3 = HandleFunc ''/list'' ListH g2;
          w3 = emit (Call_HandleFunc ''/list'' ListH) w2;
          w4 = emit (Log ''Server running on :8080'') w3;
          w5 = emit (Call_ListenAndServe '':8080'') w4
      in case ListenAndServe e '':8080'' of
           Some err \<Rightarrow> (Fatal err, w5)
         | None \<Rightarrow> (Serving g3, w5))"

definition client_options :: "string \<Rightarrow> string \<Rightarrow> options" where
  "client_options accessKey secretKey =
     \<lparr>Creds = NewStaticV4 accessKey secretKey [], Secure = False\<rparr>"

text \<open>\<^verbatim>\<open>main\<close> of \<^verbatim>\<open>src/server/main.go\<close>.\<close>

definition main ::
  "('c, 's) backend \<Rightarrow> env \<Rightarrow> 's world \<Rightarrow> ('c outcome \<times> 's world) option" where
  "main be e w =
     (case godotenv_Load e (environ e) of
        (lerr, vars) \<Rightarrow>
          (let w0 = (case lerr of
                       Some _ \<Rightarrow> emit (Log ''No .env file found or failed to load it'') w
                     | None \<Rightarrow> w);
               endpoint = Getenv vars ''MINIO_ENDPOINT'';
               accessKey = Getenv vars ''MINIO_ACCESS_KEY'';
               secretKey = Getenv vars ''MINIO_SECRET_KEY'';
               g = \<lparr>minioClient = None, bucketName = Getenv vars ''MINIO_BUCKET'', mux = []\<rparr>
           in if endpoint = [] \<or> accessKey = [] \<or> secretKey = [] \<or> bucketName g = [] then
                Some (Fatal ''One or more required environment variables are missing'', w0)
              else
                (case connect be endpoint (client_options accessKey secretKey) g w0 of
                   None \<Rightarrow> None
                 | Some (g1, w1) \<Rightarrow>
                     (case bucket_loop be g1 0 (emit (Log ''Connected to MinIO'') w1) of
                        (Some out, w2) \<Rightarrow> Some (out, w2)
                      | (None, w2) \<Rightarrow> Some (routes_and_listen e g1 w2)))))"

text \<open>\<^verbatim>\<open>main\<close> of \<^verbatim>\<open>src/unnamed/part_000\<close>: no \<^verbatim>\<open>.env\<close> file, \<^verbatim>\<open>bucketName\<close> read when
  the package is initialised, and one bucket query.\<close>

definition main_part_000 ::
  "('c, 's) backend \<Rightarrow> env \<Rightarrow> 's world \<Rightarrow> ('c outcome \<times> 's world) option" where
  "main_part_000 be e w =
     (let g = \<lparr>minioClient = None, bucketName = Getenv (environ e) ''MINIO_BUCKET'', mux = []\<rparr>;
          endpoint = Getenv (environ e) ''MINIO_ENDPOINT'';
          accessKey = Getenv (environ e) ''MINIO_ACCESS_KEY'';
          secretKey = Getenv (environ e) ''MINIO_SECRET_KEY''
      in if endpoint = [] \<or> accessKey = [] \<or> secretKey = [] \<or> bucketName g = [] then
           Some (Fatal ''One or more required environment variables are missing'', w)
         else
           (case connect be endpoint (client_options accessKey secretKey) g w of
              None \<Rightarrow> None
            | Some (g1, w1) \<Rightarrow>
                (case bucket_once be g1 (emit (Log ''Connected to MinIO'') w1) of
                   (Some out, w2) \<Rightarrow> Some (out, w2)
                 | (None, w2) \<Rightarrow> Some (routes_and_listen e g1 w2))))"

text \<open>Start-up followed by the requests the listener accepts, served in turn. Only a
  start-up that ends with the listener serving has requests handled.\<close>

definition serve_after ::
  "('c, 's) backend \<Rightarrow> request list \<Rightarrow> ('c outcome \<times> 's world) option
     \<Rightarrow> ('c outcome \<times> response_writer option list \<times> 's world) option" where
  "serve_after be rs m =
     (case m of
        None \<Rightarrow> None
      | Some (Serving g, w1) \<Rightarrow>
          (case serve_requests be g rs w1 of (out, w2) \<Rightarrow> Some (Serving g, out, w2))
      | Some (oc, w1) \<Rightarrow> Some (oc, [], w1))"

subsection \<open>Reading a trace\<close>

text \<open>The backend state before call \<open>n\<close> of \<^verbatim>\<open>minio.New\<close> in a row of calls from state
  \<open>s\<close>, and what that call returns; the same for \<^verbatim>\<open>BucketExists\<close>.\<close>

fun New_state :: "('c, 's) backend \<Rightarrow> string \<Rightarrow> options \<Rightarrow> 's \<Rightarrow> nat \<Rightarrow> 's" where
  "New_state be endpoint opts s 0 = s"
| "New_state be endpoint opts s (Suc n) = New_state be endpoint opts (snd (New be s endpoint opts)) n"

definition New_attempt :: "('c, 's) backend \<Rightarrow> string \<Rightarrow> options \<Rightarrow> 's \<Rightarrow> nat \<Rightarrow> string + 'c" where
  "New_attempt be endpoint opts s n = fst (New be (New_state be endpoint opts s n) endpoint opts)"

fun BucketExists_state :: "('c, 's) backend \<Rightarrow> 'c \<Rightarrow> string \<Rightarrow> 's \<Rightarrow> nat \<Rightarrow> 's" where
  "BucketExists_state be c b s 0 = s"
| "BucketExists_state be c b s (Suc n) = BucketExists_state be c b (snd (BucketExists be c s b)) n"

definition BucketExists_attempt :: "('c, 's) backend \<Rightarrow> 'c \<Rightarrow> string \<Rightarrow> 's \<Rightarrow> nat \<Rightarrow> string + bool" where
  "BucketExists_attempt be c b s n = fst (BucketExists be c (BucketExists_state be c b s n) b)"

text \<open>The events of one pass of the connect loop in which \<^verbatim>\<open>New\<close> returned the error
  \<open>err\<close>.\<close>

definition connect_retry :: "string \<Rightarrow> options \<Rightarrow> string \<Rightarrow> event list" where
  "connect_retry endpoint opts err =
     [Call_New endpoint opts (Some err), Log (''Waiting for MinIO to be ready: '' @ err), Sleep 2]"

text \<open>The settings \<^verbatim>\<open>main\<close> reads from the variables when none of the four is empty:
  the endpoint, the options it gives to \<^verbatim>\<open>New\<close>, and the bucket.\<close>

definition config_of :: "(string \<rightharpoonup> string) \<Rightarrow> (string \<times> options \<times> string) option" where
  "config_of vars =
     (if Getenv vars ''MINIO_ENDPOINT'' = [] \<or> Getenv vars ''MINIO_ACCESS_KEY'' = [] \<or>
         Getenv vars ''MINIO_SECRET_KEY'' = [] \<or> Getenv vars ''MINIO_BUCKET'' = []
      then None
      else Some (Getenv vars ''MINIO_ENDPOINT'',
                 client_options (Getenv vars ''MINIO_ACCESS_KEY'') (Getenv vars ''MINIO_SECRET_KEY''),
                 Getenv vars ''MINIO_BUCKET''))"

text \<open>The events a step added to the trace.\<close>

definition added :: "'s world \<Rightarrow> 's world \<Rightarrow> event list" where
  "added w w' = drop (length (trace w)) (trace w')"

fun is_BucketExists :: "event \<Rightarrow> bool" where
  "is_BucketExists (Call_BucketExists _ _) = True"
| "is_BucketExists _ = False"

fun is_MakeBucket :: "event \<Rightarrow> bool" where
  "is_MakeBucket (Call_MakeBucket _ _) = True"
| "is_MakeBucket _ = False"

text \<open>\<open>spaced False es\<close>: there is a \<^verbatim>\<open>Sleep\<close> of two seconds between any two calls of
  \<^verbatim>\<open>BucketExists\<close> in \<open>es\<close>. The flag says that a call has been seen and no sleep since.\<close>

fun spaced :: "bool \<Rightarrow> event list \<Rightarrow> bool" where
  "spaced pending [] = True"
| "spaced pending (Call_BucketExists b r # es) = (\<not> pending \<and> spaced True es)"
| "spaced pending (Sleep n # es) = (if n = 2 then spaced False es else spaced pending es)"
| "spaced pending (e # es) = spaced pending es"

text \<open>\<open>phased False es\<close>: \<^verbatim>\<open>ListenAndServe\<close> is called at most once in \<open>es\<close>, only events
  of start-up come before the call, and only events of request handlers after it.\<close>

fun phased :: "bool \<Rightarrow> event list \<Rightarrow> bool" where
  "phased listening [] = True"
| "phased listening (Call_ListenAndServe a # es) = (\<not> listening \<and> phased True es)"
| "phased listening (e # es) =
     ((if listening then request_event e else startup_event e) \<and> phased listening es)"

definition before_listen :: "event list \<Rightarrow> event list" where
  "before_listen es = takeWhile (\<lambda>e. e \<noteq> Call_ListenAndServe '':8080'') es"

text \<open>The bucket was seen to exist, or was made.\<close>

definition bucket_confirmed :: "string \<Rightarrow> event list \<Rightarrow> bool" where
  "bucket_confirmed b es \<longleftrightarrow>
     Call_BucketExists b (Inr True) \<in> set es \<or> Call_MakeBucket b None \<in> set es"

text \<open>The list of lines \<^verbatim>\<open>fmt.Fprintln\<close> writes for a list of keys.\<close>

definition key_lines :: "string list \<Rightarrow> bytes" where
  "key_lines ks = concat (map (\<lambda>k. k @ [newline]) ks)"

subsection \<open>A storage backend that keeps its objects\<close>

text \<open>
  What the round-trip properties ask of the storage client \<open>c\<close>: there is a view \<open>content\<close>
  of the backend state as a map from bucket and key to bytes such that a \<^verbatim>\<open>PutObject\<close>
  that returns no error sets the entry to the bytes it was given, a \<^verbatim>\<open>GetObject\<close>
  changes no entry, and a \<^verbatim>\<open>GetObject\<close> of an entry that is there returns a reader
  that delivers exactly its bytes.
\<close>

definition keeps_objects ::
  "('c, 's) backend \<Rightarrow> 'c \<Rightarrow> ('s \<Rightarrow> (string \<times> string) \<rightharpoonup> bytes) \<Rightarrow> bool" where
  "keeps_objects be c content \<longleftrightarrow>
     (\<forall>s b k d n s'. PutObject be c s b k d n = (None, s') \<longrightarrow> content s' = (content s)((b, k) \<mapsto> d)) \<and>
     (\<forall>s b k. content (snd (GetObject be c s b k)) = content s) \<and>
     (\<forall>s b k d. content s (b, k) = Some d \<longrightarrow>
        (\<exists>obj. fst (GetObject be c s b k) = Inr obj \<and> concat (chunks obj) = d \<and> read_err obj = None))"

text \<open>Each request of the list handled in turn by the named handler, on a new writer; the
  world after the last one.\<close>

fun handle_all ::
  "('c, 's) backend \<Rightarrow> 'c globals \<Rightarrow> (handler \<times> request) list \<Rightarrow> 's world \<Rightarrow> 's world" where
  "handle_all be g [] w = w"
| "handle_all be g ((h, r) # hrs) w =
     (case call_handler h be g new_writer r w of
        Panic \<Rightarrow> handle_all be g hrs w
      | Return (rw, w') \<Rightarrow> handle_all be g hrs w')"

subsection \<open>A backend in memory\<close>

text \<open>
  An instance of the parameter, to run the model on: buckets and objects in lists, a
  client that is refused a given number of times by \<^verbatim>\<open>New\<close> and by
  \<^verbatim>\<open>BucketExists\<close> before it is answered.

  \<^verbatim>\<open>GetObject\<close> is as in \<^verbatim>\<open>minio-go\<close> v7: it sends no request and returns a handle
  with a nil error, and what the server answers comes with the first read of the handle.
  For an object that is not there the handle is a reader whose first read fails with the
  error of the server. The only errors \<^verbatim>\<open>GetObject\<close> itself returns in the library are
  for names it refuses before any request; this instance refuses no name.
\<close>

record mem =
  new_failures :: nat
  exists_failures :: nat
  buckets :: "string list"
  objects :: "((string \<times> string) \<times> bytes) list"

definition mem_New :: "mem \<Rightarrow> string \<Rightarrow> options \<Rightarrow> (string + unit) \<times> mem" where
  "mem_New s endpoint opts =
     (if 0 < new_failures s then (Inl ''connection refused'', s\<lparr>new_failures := new_failures s - 1\<rparr>)
      else (Inr (), s))"

definition mem_BucketExists :: "unit \<Rightarrow> mem \<Rightarrow> string \<Rightarrow> (string + bool) \<times> mem" where
  "mem_BucketExists c s b =
     (if 0 < exists_failures s then
        (Inl ''connection refused'', s\<lparr>exists_failures := exists_failures s - 1\<rparr>)
      else (Inr (b \<in> set (buckets s)), s))"

definition mem_MakeBucket :: "unit \<Rightarrow> mem \<Rightarrow> string \<Rightarrow> string option \<times> mem" where
  "mem_MakeBucket c s b =
     (if b \<in> set (buckets s) then (Some ''bucket already owned'', s)
      else (None, s\<lparr>buckets := b # buckets s\<rparr>))"

definition mem_PutObject ::
  "unit \<Rightarrow> mem \<Rightarrow> string \<Rightarrow> string \<Rightarrow> bytes \<Rightarrow> int \<Rightarrow> string option \<times> mem" where
  "mem_PutObject c s b k d n =
     (if b \<in> set (buckets s) then
        (None, s\<lparr>objects := ((b, k), d) # filter (\<lambda>e. fst e \<noteq> (b, k)) (objects s)\<rparr>)
      else (Some ''no such bucket'', s))"

definition mem_GetObject :: "unit \<Rightarrow> mem \<Rightarrow> string \<Rightarrow> string \<Rightarrow> (string + object) \<times> mem" where
  "mem_GetObject c s b k =
     (case map_of (objects s) (b, k) of
        None \<Rightarrow> (Inr \<lparr>chunks = [], read_err = Some ''The specified key does not exist.''\<rparr>, s)
      | Some d \<Rightarrow> (Inr \<lparr>chunks = [d], read_err = None\<rparr>, s))"

definition mem_ListObjects :: "unit \<Rightarrow> mem \<Rightarrow> string \<Rightarrow> bool \<Rightarrow> object_info list \<times> mem" where
  "mem_ListObjects c s b recursive =
     (map (\<lambda>e. \<lparr>Key = snd (fst e), Err = None\<rparr>) (filter (\<lambda>e. fst (fst e) = b) (objects s)), s)"

definition mem_backend :: "(unit, mem) backend" where
  "mem_backend =
     \<lparr>New = mem_New, BucketExists = mem_BucketExists, MakeBucket = mem_MakeBucket,
      PutObject = mem_PutObject, GetObject = mem_GetObject, ListObjects = mem_ListObjects\<rparr>"

definition mem_content :: "mem \<Rightarrow> (string \<times> string) \<rightharpoonup> bytes" where
  "mem_content s = map_of (objects s)"

definition mem0 :: "mem world" where
  "mem0 = \<lparr>bstate = \<lparr>new_failures = 0, exists_failures = 0, buckets = [''bkt''], objects = []\<rparr>,
           trace = []\<rparr>"

definition g0 :: "unit globals" where
  "g0 = \<lparr>minioClient = Some (), bucketName = ''bkt'',
         mux = [(''/upload'', UploadH), (''/download'', DownloadH), (''/list'', ListH)]\<rparr>"

definition req :: "string \<Rightarrow> (string \<times> string list) list \<Rightarrow> bytes \<Rightarrow> request" where
  "req p q b = \<lparr>url_path = p, url_query = map_of q, req_body = b\<rparr>"

text \<open>Variants of it: an enumeration that fails after its first key, one that fails before
  any key, a reader that fails after three bytes, a \<^verbatim>\<open>New\<close> that always fails.\<close>

definition list_fault_backend :: "(unit, mem) backend" where
  "list_fault_backend =
     mem_backend\<lparr>ListObjects :=
       (\<lambda>c s b recursive.
          ([\<lparr>Key = ''a'', Err = None\<rparr>, \<lparr>Key = [], Err = Some ''boom''\<rparr>,
            \<lparr>Key = ''z'', Err = None\<rparr>], s))\<rparr>"

definition list_fault_first_backend :: "(unit, mem) backend" where
  "list_fault_first_backend =
     mem_backend\<lparr>ListObjects :=
       (\<lambda>c s b recursive. ([\<lparr>Key = [], Err = Some ''boom''\<rparr>, \<lparr>Key = ''z'', Err = None\<rparr>], s))\<rparr>"

definition read_fault_backend :: "(unit, mem) backend" where
  "read_fault_backend =
     mem_backend\<lparr>GetObject :=
       (\<lambda>c s b k. (Inr \<lparr>chunks = [''he'', ''l''], read_err = Some ''unexpected EOF''\<rparr>, s))\<rparr>"

definition refusing_backend :: "(unit, mem) backend" where
  "refusing_backend = mem_backend\<lparr>New := (\<lambda>s endpoint opts. (Inl ''connection refused'', s))\<rparr>"

definition env0 :: env where
  "env0 =
     \<lparr>environ = map_of [(''MINIO_ENDPOINT'', ''minio:9000''), (''MINIO_ACCESS_KEY'', ''ak''),
                         (''MINIO_SECRET_KEY'', ''sk''), (''MINIO_BUCKET'', ''bkt'')],
      godotenv_Load = (\<lambda>vars. (Some ''open .env: no such file or directory'', vars)),
      ListenAndServe = (\<lambda>addr. None)\<rparr>"

definition mem_start :: "nat \<Rightarrow> nat \<Rightarrow> string list \<Rightarrow> mem world" where
  "mem_start nf ef bs =
     \<lparr>bstate = \<lparr>new_failures = nf, exists_failures = ef, buckets = bs, objects = []\<rparr>,
      trace = []\<rparr>"

text \<open>The events of the three registrations and the log line before the listener.\<close>

definition route_events :: "event list" where
  "route_events = [Call_HandleFunc ''/upload'' UploadH, Call_HandleFunc ''/download'' DownloadH,
                   Call_HandleFunc ''/list'' ListH, Log ''Server running on :8080'']"

definition reqs0 :: "request list" where
  "reqs0 = [req ''/upload'' [(''key'', [''k''])] ''hi'', req ''/download'' [(''key'', [''k''])] []]"

section \<open>Properties\<close>

subsection \<open>The response writer\<close>

lemma http_Error_fresh:
  "\<not> wroteHeader rw \<Longrightarrow>
     status (http_Error rw msg code) = code \<and>
     body (http_Error rw msg code) = body rw @ msg @ [newline] \<and>
     wroteHeader (http_Error rw msg code)"
  by (simp add: http_Error_def Fprintln_def Write_def WriteHeader_def Header_Set_def Let_def)

lemma Query_Get_empty:
  "Query_Get q k = [] \<longleftrightarrow> q k = None \<or> q k = Some [] \<or> (\<exists>vs. q k = Some ([] # vs))"
  by (auto simp: Query_Get_def split: option.splits list.splits)

subsection \<open>A request without a key\<close>

text \<open>
  C1. A request to \<^verbatim>\<open>/upload\<close> or \<^verbatim>\<open>/download\<close> whose \<^verbatim>\<open>key\<close> parameter is absent
  (no entry in the query, or an entry with no value) or empty (its first value is the
  empty string) is answered with status 400 and the message of the missing parameter,
  and the handler returns the world it was given: the backend state and the trace are
  unchanged, so no call to the storage backend was made. This holds whatever the client
  is, nil included.
\<close>

theorem missing_key_is_bad_request:
  assumes "url_query r ''key'' = None \<or> url_query r ''key'' = Some [] \<or>
           (\<exists>vs. url_query r ''key'' = Some ([] # vs))"
    and "h = UploadH \<or> h = DownloadH"
    and "\<not> wroteHeader rw"
  shows "result_world (call_handler h be g rw r w) = Some w \<and>
         map_option status (result_writer (call_handler h be g rw r w)) = Some StatusBadRequest \<and>
         map_option body (result_writer (call_handler h be g rw r w)) =
           Some (body rw @ ''Missing 'key' query parameter'' @ [newline])"
proof -
  from assms(1) have k: "Query_Get (url_query r) ''key'' = []"
    by (simp add: Query_Get_empty)
  from assms(2) show ?thesis
    using http_Error_fresh [OF assms(3)]
    by (auto simp: uploadHandler_def downloadHandler_def k)
qed

theorem missing_key_is_bad_request_witness:
  "result_world (call_handler DownloadH mem_backend g0 new_writer
                   (req ''/download'' [(''key'', [[], ''k''])] []) mem0) = Some mem0 \<and>
   map_option status (result_writer (call_handler DownloadH mem_backend g0 new_writer
                   (req ''/download'' [(''key'', [[], ''k''])] []) mem0)) = Some 400 \<and>
   map_option body (result_writer (call_handler DownloadH mem_backend g0 new_writer
                   (req ''/download'' [(''key'', [[], ''k''])] []) mem0)) =
     Some (''Missing 'key' query parameter'' @ [newline])"
  using missing_key_is_bad_request
          [of "req ''/download'' [(''key'', [[], ''k''])] []" DownloadH new_writer
              mem_backend g0 mem0]
  by (simp add: req_def new_writer_def StatusBadRequest_def)

subsection \<open>Download\<close>

lemma copy_chunks_committed:
  "wroteHeader rw \<Longrightarrow> copy_chunks rw cs = rw\<lparr>body := body rw @ concat cs\<rparr>"
  by (induction cs arbitrary: rw) (simp_all add: Write_def)

text \<open>The path of \<^verbatim>\<open>downloadHandler\<close> that answers with a server error: when
  \<^verbatim>\<open>GetObject\<close> itself returns an error, the status is 500, the body is
  \<^verbatim>\<open>Download failed: \<close> followed by the text of the error, and that call is the only
  backend call.\<close>

lemma download_GetObject_error_is_500:
  assumes "Query_Get (url_query r) ''key'' \<noteq> []"
    and "minioClient g = Some c"
    and "fst (GetObject be c (bstate w) (bucketName g) (Query_Get (url_query r) ''key'')) = Inl err"
    and "\<not> wroteHeader rw"
  shows "map_option status (result_writer (downloadHandler be g rw r w)) = Some 500 \<and>
         map_option body (result_writer (downloadHandler be g rw r w)) =
           Some (body rw @ ''Download failed: '' @ err @ [newline]) \<and>
         map_option (added w) (result_world (downloadHandler be g rw r w)) =
           Some [Call_GetObject (bucketName g) (Query_Get (url_query r) ''key'') (Some err)]"
  using assms http_Error_fresh [OF assms(4)]
  by (cases "GetObject be c (bstate w) (bucketName g) (Query_Get (url_query r) ''key'')")
     (simp add: downloadHandler_def StatusInternalServerError_def added_def called_def)

text \<open>
  C3 asks that a download with a non-empty key that names an object the backend reports
  as not existing be answered with a 5xx status, not 404, and a body that includes the
  cause. The handler does not do that. It answers with 500 only on an error of
  \<^verbatim>\<open>GetObject\<close> itself, and the storage client does not look the object up there: the
  missing object is reported by the first read of the handle, inside \<^verbatim>\<open>io.Copy\<close>, after
  \<^verbatim>\<open>WriteHeader(200)\<close>, and the error \<^verbatim>\<open>io.Copy\<close> returns is dropped. For the key
  \<^verbatim>\<open>absent\<close> in a bucket with no object: \<^verbatim>\<open>GetObject\<close> returns a handle whose first read
  fails with the error of the missing key, and the response has status 200 and an empty
  body; the backend calls are \<^verbatim>\<open>GetObject\<close>, without error, and \<^verbatim>\<open>Close\<close>.
\<close>

theorem download_of_missing_object_is_200:
  "fst (GetObject mem_backend () (bstate mem0) (bucketName g0) ''absent'') =
     Inr \<lparr>chunks = [], read_err = Some ''The specified key does not exist.''\<rparr> \<and>
   map_option status (result_writer (downloadHandler mem_backend g0 new_writer
       (req ''/download'' [(''key'', [''absent''])] []) mem0)) = Some 200 \<and>
   map_option body (result_writer (downloadHandler mem_backend g0 new_writer
       (req ''/download'' [(''key'', [''absent''])] []) mem0)) = Some [] \<and>
   map_option (added mem0) (result_world (downloadHandler mem_backend g0 new_writer
       (req ''/download'' [(''key'', [''absent''])] []) mem0)) =
     Some [Call_GetObject ''bkt'' ''absent'' None, Call_Close]"
  by (simp add: downloadHandler_def req_def Query_Get_def g0_def mem_backend_def
        mem_GetObject_def mem0_def new_writer_def io_Copy_def WriteHeader_def Header_Set_def
        StatusOK_def added_def called_def emit_def)

text \<open>
  C10. When \<^verbatim>\<open>GetObject\<close> returns a handle, the writer \<open>rw1\<close> that \<^verbatim>\<open>io.Copy\<close> starts
  from has its header written, with status 200 and \<^verbatim>\<open>Content-Disposition: inline\<close>
  among the headers sent, and has no byte of the object in its body yet. Whatever the
  copy then returns, a read error included, the response keeps status 200 and that
  header, and its body is the bytes the reader delivered before it ended.
\<close>

theorem download_commits_200_before_copy:
  assumes "Query_Get (url_query r) ''key'' \<noteq> []"
    and "minioClient g = Some c"
    and "fst (GetObject be c (bstate w) (bucketName g) (Query_Get (url_query r) ''key'')) = Inr obj"
    and "\<not> wroteHeader rw"
    and "rw1 = WriteHeader (Header_Set rw ''Content-Disposition'' ''inline'') StatusOK"
  shows "wroteHeader rw1 \<and> status rw1 = 200 \<and>
         sent_header rw1 ''Content-Disposition'' = Some ''inline'' \<and>
         body rw1 = body rw \<and>
         result_writer (downloadHandler be g rw r w) = Some (fst (io_Copy rw1 obj)) \<and>
         snd (snd (io_Copy rw1 obj)) = read_err obj \<and>
         map_option status (result_writer (downloadHandler be g rw r w)) = Some 200 \<and>
         map_option (\<lambda>rw'. sent_header rw' ''Content-Disposition'')
           (result_writer (downloadHandler be g rw r w)) = Some (Some ''inline'') \<and>
         map_option body (result_writer (downloadHandler be g rw r w)) =
           Some (body rw @ concat (chunks obj))"
  using assms
  by (cases "GetObject be c (bstate w) (bucketName g) (Query_Get (url_query r) ''key'')")
     (simp add: downloadHandler_def StatusOK_def io_Copy_def copy_chunks_committed
        WriteHeader_def Header_Set_def)

theorem download_commits_200_before_copy_witness:
  "snd (snd (io_Copy (WriteHeader (Header_Set new_writer ''Content-Disposition'' ''inline'') StatusOK)
       \<lparr>chunks = [''he'', ''l''], read_err = Some ''unexpected EOF''\<rparr>)) = Some ''unexpected EOF'' \<and>
   map_option status (result_writer (downloadHandler read_fault_backend g0 new_writer
       (req ''/download'' [(''key'', [''k''])] []) mem0)) = Some 200 \<and>
   map_option body (result_writer (downloadHandler read_fault_backend g0 new_writer
       (req ''/download'' [(''key'', [''k''])] []) mem0)) = Some ''hel''"
  using download_commits_200_before_copy
          [of "req ''/download'' [(''key'', [''k''])] []" g0 "()" read_fault_backend mem0
              "\<lparr>chunks = [''he'', ''l''], read_err = Some ''unexpected EOF''\<rparr>" new_writer
              "WriteHeader (Header_Set new_writer ''Content-Disposition'' ''inline'') StatusOK"]
  by (simp add: req_def Query_Get_def g0_def read_fault_backend_def mem0_def new_writer_def
        io_Copy_def WriteHeader_def Header_Set_def Write_def StatusOK_def mem_backend_def)

subsection \<open>List\<close>

lemma Fprintln_body: "body (Fprintln rw s) = body rw @ s @ [newline]"
  by (simp add: Fprintln_def Write_def WriteHeader_def)

lemma Fprintln_wrote: "wroteHeader (Fprintln rw s)"
  by (simp add: Fprintln_def Write_def WriteHeader_def)

lemma Fprintln_status:
  "status (Fprintln rw s) = (if wroteHeader rw then status rw else 200)"
  by (simp add: Fprintln_def Write_def WriteHeader_def)

lemma list_loop_good:
  "list_all (\<lambda>obj. Err obj = None) good \<Longrightarrow>
     list_loop rw (good @ rest) = list_loop (list_loop rw good) rest \<and>
     body (list_loop rw good) = body rw @ key_lines (map Key good) \<and>
     wroteHeader (list_loop rw good) = (wroteHeader rw \<or> good \<noteq> []) \<and>
     status (list_loop rw good) = (if wroteHeader rw \<or> good = [] then status rw else 200)"
proof (induction good arbitrary: rw)
  case Nil
  then show ?case by (simp add: key_lines_def)
next
  case (Cons obj good)
  from Cons.prems have e: "Err obj = None" and g: "list_all (\<lambda>obj. Err obj = None) good"
    by simp_all
  show ?case
    using Cons.IH [OF g, of "Fprintln rw (Key obj)"] e
    by (simp add: Fprintln_body Fprintln_wrote Fprintln_status key_lines_def)
qed

lemma http_Error_committed:
  "wroteHeader rw \<Longrightarrow>
     status (http_Error rw msg code) = status rw \<and>
     body (http_Error rw msg code) = body rw @ msg @ [newline]"
  by (simp add: http_Error_def Fprintln_def Write_def WriteHeader_def Header_Set_def Let_def)

lemma list_loop_error:
  assumes "list_all (\<lambda>obj. Err obj = None) good" and "Err bad = Some e" and "\<not> wroteHeader rw"
  shows "body (list_loop rw (good @ bad # rest)) = body rw @ key_lines (map Key good) @ e @ [newline] \<and>
         status (list_loop rw (good @ bad # rest)) =
           (if good = [] then StatusInternalServerError else StatusOK)"
proof -
  note g = list_loop_good [OF assms(1), of rw "bad # rest"]
  have ll: "list_loop rw (good @ bad # rest) =
              http_Error (list_loop rw good) e StatusInternalServerError"
    using g assms(2) by simp
  show ?thesis
  proof (cases "good = []")
    case True
    then show ?thesis
      using assms(3) ll http_Error_fresh [of rw e StatusInternalServerError]
      by (simp add: key_lines_def)
  next
    case False
    then have "wroteHeader (list_loop rw good)" using g by simp
    from http_Error_committed [OF this, of e StatusInternalServerError] False
    show ?thesis using assms(3) ll g by (simp add: StatusOK_def)
  qed
qed

text \<open>
  C8, as the code has it. With the values received from \<^verbatim>\<open>ListObjects\<close> being \<open>good\<close>,
  none with an error: the body is the keys of \<open>good\<close>, one per line, in that order, and
  the response, once finished, has status 200. With the values being \<open>good\<close>, then \<open>bad\<close>
  with the error \<open>e\<close>, then \<open>rest\<close>: the handler stops at \<open>bad\<close>, so the body is the lines
  of \<open>good\<close> followed by the line \<open>e\<close> and nothing of \<open>rest\<close>; and when \<open>good\<close> is empty
  the status is 500.
\<close>

theorem list_writes_keys_until_error:
  assumes "minioClient g = Some c"
    and "\<not> wroteHeader rw"
    and "list_all (\<lambda>obj. Err obj = None) good"
  shows "(fst (ListObjects be c (bstate w) (bucketName g) True) = good \<longrightarrow>
            map_option body (result_writer (listHandler be g rw r w)) =
              Some (body rw @ key_lines (map Key good)) \<and>
            map_option (\<lambda>rw'. status (finishRequest rw')) (result_writer (listHandler be g rw r w)) =
              Some StatusOK) \<and>
         (fst (ListObjects be c (bstate w) (bucketName g) True) = good @ bad # rest \<and>
          Err bad = Some e \<longrightarrow>
            map_option body (result_writer (listHandler be g rw r w)) =
              Some (body rw @ key_lines (map Key good) @ e @ [newline]) \<and>
            (good = [] \<longrightarrow>
               map_option status (result_writer (listHandler be g rw r w)) =
                 Some StatusInternalServerError))"
proof -
  obtain objs s' where l: "ListObjects be c (bstate w) (bucketName g) True = (objs, s')"
    by (cases "ListObjects be c (bstate w) (bucketName g) True")
  have h: "result_writer (listHandler be g rw r w) = Some (list_loop rw objs)"
    using assms(1) l by (simp add: listHandler_def)
  have a: "objs = good \<longrightarrow>
             body (list_loop rw objs) = body rw @ key_lines (map Key good) \<and>
             status (finishRequest (list_loop rw objs)) = StatusOK"
    using list_loop_good [OF assms(3), of rw "[]"] assms(2)
    by (auto simp: finishRequest_def WriteHeader_def StatusOK_def)
  have b: "objs = good @ bad # rest \<and> Err bad = Some e \<longrightarrow>
             body (list_loop rw objs) = body rw @ key_lines (map Key good) @ e @ [newline] \<and>
             (good = [] \<longrightarrow> status (list_loop rw objs) = StatusInternalServerError)"
    using list_loop_error [OF assms(3) _ assms(2), of bad e rest] by auto
  show ?thesis using a b l by (simp add: h)
qed

theorem list_writes_keys_until_error_witness:
  "map_option body (result_writer (listHandler list_fault_backend g0 new_writer
       (req ''/list'' [] []) mem0)) = Some (''a'' @ [newline] @ ''boom'' @ [newline]) \<and>
   map_option body (result_writer (listHandler list_fault_first_backend g0 new_writer
       (req ''/list'' [] []) mem0)) = Some (''boom'' @ [newline]) \<and>
   map_option status (result_writer (listHandler list_fault_first_backend g0 new_writer
       (req ''/list'' [] []) mem0)) = Some 500"
  using list_writes_keys_until_error
          [where g = g0 and c = "()" and rw = new_writer and be = list_fault_backend and w = mem0
             and good = "[\<lparr>Key = ''a'', Err = None\<rparr>]" and bad = "\<lparr>Key = [], Err = Some ''boom''\<rparr>"
             and rest = "[\<lparr>Key = ''z'', Err = None\<rparr>]" and e = "''boom''"
             and r = "req ''/list'' [] []"]
        list_writes_keys_until_error
          [where g = g0 and c = "()" and rw = new_writer and be = list_fault_first_backend
             and w = mem0 and good = "[]" and bad = "\<lparr>Key = [], Err = Some ''boom''\<rparr>"
             and rest = "[\<lparr>Key = ''z'', Err = None\<rparr>]" and e = "''boom''"
             and r = "req ''/list'' [] []"]
  by (simp add: g0_def new_writer_def list_fault_backend_def list_fault_first_backend_def mem0_def
        key_lines_def StatusInternalServerError_def)

text \<open>An error after a written key does not give a server-error response. Where the
  enumeration yields the key \<^verbatim>\<open>a\<close> and then the error \<^verbatim>\<open>boom\<close>, the first line written
  has sent status 200, and the \<^verbatim>\<open>WriteHeader(500)\<close> of \<^verbatim>\<open>http.Error\<close> comes too late to
  change it: the response has status 200, not 500, and the body is both lines.\<close>

theorem list_error_after_key_counterexample:
  "map_option status (result_writer (listHandler list_fault_backend g0 new_writer
       (req ''/list'' [] []) mem0)) = Some 200 \<and>
   map_option status (result_writer (listHandler list_fault_backend g0 new_writer
       (req ''/list'' [] []) mem0)) \<noteq> Some StatusInternalServerError \<and>
   map_option body (result_writer (listHandler list_fault_backend g0 new_writer
       (req ''/list'' [] []) mem0)) = Some (''a'' @ [newline] @ ''boom'' @ [newline])"
  by (simp add: listHandler_def list_fault_backend_def g0_def mem0_def new_writer_def
        http_Error_def Fprintln_def Write_def WriteHeader_def Header_Set_def
        StatusInternalServerError_def)

subsection \<open>Upload, then download\<close>

lemma upload_ok_put:
  assumes "minioClient g = Some c"
    and "Query_Get (url_query r) ''key'' \<noteq> []"
    and "uploadHandler be g new_writer r w = Return (rw', w')"
    and "status rw' = StatusOK"
  shows "PutObject be c (bstate w) (bucketName g) (Query_Get (url_query r) ''key'') (req_body r) (- 1)
           = (None, bstate w')"
proof (cases "PutObject be c (bstate w) (bucketName g) (Query_Get (url_query r) ''key'') (req_body r) (- 1)")
  case (Pair res s')
  show ?thesis
  proof (cases res)
    case None
    with Pair assms show ?thesis
      by (auto simp: uploadHandler_def called_def Let_def)
  next
    case (Some err)
    have "\<not> wroteHeader new_writer" by (simp add: new_writer_def)
    from http_Error_fresh [OF this, of "''Upload failed: '' @ err" StatusInternalServerError]
    show ?thesis using Pair Some assms
      by (auto simp: uploadHandler_def StatusOK_def StatusInternalServerError_def Let_def)
  qed
qed

lemma download_keeps_content:
  assumes "keeps_objects be c content"
    and "minioClient g = Some c"
    and "downloadHandler be g rw r w = Return (rw', w')"
  shows "content (bstate w') = content (bstate w)"
proof (cases "Query_Get (url_query r) ''key'' = []")
  case True
  with assms(3) show ?thesis by (simp add: downloadHandler_def)
next
  case False
  from assms(1) have
    k: "content (snd (GetObject be c (bstate w) (bucketName g) (Query_Get (url_query r) ''key'')))
          = content (bstate w)"
    by (simp add: keeps_objects_def)
  show ?thesis
    using assms(2,3) False k
    by (cases "GetObject be c (bstate w) (bucketName g) (Query_Get (url_query r) ''key'')")
       (auto simp: downloadHandler_def called_def emit_def Let_def split: sum.splits)
qed

lemma downloads_keep_content:
  assumes "keeps_objects be c content"
    and "minioClient g = Some c"
  shows "list_all (\<lambda>hr. fst hr = DownloadH) hrs \<Longrightarrow>
           content (bstate (handle_all be g hrs w)) = content (bstate w)"
proof (induction hrs arbitrary: w)
  case Nil
  then show ?case by simp
next
  case (Cons hr hrs)
  obtain h r where hr: "hr = (h, r)" by (cases hr)
  with Cons.prems have h: "h = DownloadH" and rest: "list_all (\<lambda>hr. fst hr = DownloadH) hrs"
    by simp_all
  show ?case
  proof (cases "downloadHandler be g new_writer r w")
    case Panic
    then show ?thesis using Cons.IH [OF rest, of w] hr h by simp
  next
    case (Return p)
    obtain rw' w' where p: "p = (rw', w')" by (cases p)
    from download_keeps_content [OF assms Return [unfolded p]]
    show ?thesis using Cons.IH [OF rest, of w'] hr h Return p by simp
  qed
qed

lemma download_stored:
  assumes "keeps_objects be c content"
    and "minioClient g = Some c"
    and "Query_Get (url_query r) ''key'' = K"
    and "K \<noteq> []"
    and "content (bstate w) (bucketName g, K) = Some d"
  shows "map_option status (result_writer (downloadHandler be g new_writer r w)) = Some StatusOK \<and>
         map_option body (result_writer (downloadHandler be g new_writer r w)) = Some d"
proof -
  from assms(1,5) obtain obj where
    o: "fst (GetObject be c (bstate w) (bucketName g) K) = Inr obj" "concat (chunks obj) = d"
    unfolding keeps_objects_def by blast
  then show ?thesis
    using assms(2,3,4)
    by (cases "GetObject be c (bstate w) (bucketName g) K")
       (simp add: downloadHandler_def io_Copy_def copy_chunks_committed WriteHeader_def
          Header_Set_def new_writer_def StatusOK_def)
qed

lemma map_of_filter_fst:
  "map_of (filter (\<lambda>e. fst e \<noteq> a) xs) = (map_of xs)(a := None)"
  by (induction xs) (auto simp: fun_eq_iff)

lemma mem_keeps_objects: "keeps_objects mem_backend () mem_content"
  unfolding keeps_objects_def
  by (auto simp: mem_backend_def mem_PutObject_def mem_GetObject_def mem_content_def
        map_of_filter_fst fun_eq_iff split: if_splits option.splits)

text \<open>
  C2. Over a storage client that keeps its objects: for every byte sequence \<open>C\<close>, the
  empty one included, and every non-empty key \<open>K\<close>, when an upload of \<open>C\<close> under \<open>K\<close>
  has answered 200, a download of \<open>K\<close> that follows it answers 200 with a body that is
  exactly \<open>C\<close>.
\<close>

theorem upload_then_download_roundtrip:
  assumes "keeps_objects be c content"
    and "minioClient g = Some c"
    and "K \<noteq> []"
    and "Query_Get (url_query r1) ''key'' = K"
    and "req_body r1 = C"
    and "uploadHandler be g new_writer r1 w = Return (rw1, w1)"
    and "status rw1 = StatusOK"
    and "Query_Get (url_query r2) ''key'' = K"
  shows "map_option status (result_writer (downloadHandler be g new_writer r2 w1)) = Some StatusOK \<and>
         map_option body (result_writer (downloadHandler be g new_writer r2 w1)) = Some C"
proof -
  from upload_ok_put [OF assms(2) _ assms(6,7)] assms(3,4,5)
  have "PutObject be c (bstate w) (bucketName g) K C (- 1) = (None, bstate w1)" by simp
  with assms(1) have "content (bstate w1) = (content (bstate w))((bucketName g, K) \<mapsto> C)"
    unfolding keeps_objects_def by blast
  then have "content (bstate w1) (bucketName g, K) = Some C" by simp
  from download_stored [OF assms(1,2,8,3) this] show ?thesis .
qed

theorem upload_then_download_roundtrip_witness:
  "map_option status (result_writer (downloadHandler mem_backend g0 new_writer
       (req ''/download'' [(''key'', [''k''])] [])
       (the (result_world (uploadHandler mem_backend g0 new_writer
          (req ''/upload'' [(''key'', [''k''])] [CHR 0x00, CHR 0xFF, CHR ''a'']) mem0))))) = Some 200 \<and>
   map_option body (result_writer (downloadHandler mem_backend g0 new_writer
       (req ''/download'' [(''key'', [''k''])] [])
       (the (result_world (uploadHandler mem_backend g0 new_writer
          (req ''/upload'' [(''key'', [''k''])] [CHR 0x00, CHR 0xFF, CHR ''a'']) mem0))))) =
     Some [CHR 0x00, CHR 0xFF, CHR ''a'']"
  using upload_then_download_roundtrip
          [OF mem_keeps_objects, of g0 "''k''"
              "req ''/upload'' [(''key'', [''k''])] [CHR 0x00, CHR 0xFF, CHR ''a'']"
              "[CHR 0x00, CHR 0xFF, CHR ''a'']" mem0
              "the (result_writer (uploadHandler mem_backend g0 new_writer
                 (req ''/upload'' [(''key'', [''k''])] [CHR 0x00, CHR 0xFF, CHR ''a'']) mem0))"
              "the (result_world (uploadHandler mem_backend g0 new_writer
                 (req ''/upload'' [(''key'', [''k''])] [CHR 0x00, CHR 0xFF, CHR ''a'']) mem0))"
              "req ''/download'' [(''key'', [''k''])] []"]
  by (simp add: uploadHandler_def g0_def req_def Query_Get_def mem_backend_def mem_PutObject_def
        mem0_def new_writer_def Write_def WriteHeader_def StatusOK_def called_def Let_def)

text \<open>
  C9. Over a storage client that keeps its objects: when an upload of \<open>C1\<close> under \<open>K\<close>
  and then an upload of \<open>C2\<close> under \<open>K\<close> have both answered 200, then after any
  number of downloads, of any keys, a download of \<open>K\<close> answers 200 with the body \<open>C2\<close>:
  nothing of \<open>C1\<close> is left in it.
\<close>

theorem last_upload_wins:
  assumes "keeps_objects be c content"
    and "minioClient g = Some c"
    and "K \<noteq> []"
    and "Query_Get (url_query r1) ''key'' = K" and "req_body r1 = C1"
    and "uploadHandler be g new_writer r1 w = Return (rw1, w1)" and "status rw1 = StatusOK"
    and "Query_Get (url_query r2) ''key'' = K" and "req_body r2 = C2"
    and "uploadHandler be g new_writer r2 w1 = Return (rw2, w2)" and "status rw2 = StatusOK"
    and "list_all (\<lambda>hr. fst hr = DownloadH) hrs"
    and "Query_Get (url_query r3) ''key'' = K"
  shows "map_option status
           (result_writer (downloadHandler be g new_writer r3 (handle_all be g hrs w2))) = Some StatusOK \<and>
         map_option body
           (result_writer (downloadHandler be g new_writer r3 (handle_all be g hrs w2))) = Some C2"
proof -
  from upload_ok_put [OF assms(2) _ assms(10,11)] assms(3,8,9)
  have "PutObject be c (bstate w1) (bucketName g) K C2 (- 1) = (None, bstate w2)" by simp
  with assms(1) have "content (bstate w2) = (content (bstate w1))((bucketName g, K) \<mapsto> C2)"
    unfolding keeps_objects_def by blast
  then have "content (bstate w2) (bucketName g, K) = Some C2" by simp
  with downloads_keep_content [OF assms(1,2,12), of w2]
  have "content (bstate (handle_all be g hrs w2)) (bucketName g, K) = Some C2" by simp
  from download_stored [OF assms(1,2,13,3) this] show ?thesis .
qed

theorem last_upload_wins_witness:
  "map_option body (result_writer (downloadHandler mem_backend g0 new_writer
       (req ''/download'' [(''key'', [''k''])] [])
       (handle_all mem_backend g0
          [(DownloadH, req ''/download'' [(''key'', [''k''])] []),
           (DownloadH, req ''/download'' [(''key'', [''q''])] [])]
          (handle_all mem_backend g0
             [(UploadH, req ''/upload'' [(''key'', [''k''])] ''one''),
              (UploadH, req ''/upload'' [(''key'', [''k''])] ''two'')] mem0)))) = Some ''two''"
  using last_upload_wins
          [OF mem_keeps_objects, of g0 "''k''"
              "req ''/upload'' [(''key'', [''k''])] ''one''" "''one''" mem0
              "the (result_writer (uploadHandler mem_backend g0 new_writer
                 (req ''/upload'' [(''key'', [''k''])] ''one'') mem0))"
              "handle_all mem_backend g0 [(UploadH, req ''/upload'' [(''key'', [''k''])] ''one'')] mem0"
              "req ''/upload'' [(''key'', [''k''])] ''two''" "''two''"
              "the (result_writer (uploadHandler mem_backend g0 new_writer
                 (req ''/upload'' [(''key'', [''k''])] ''two'')
                 (handle_all mem_backend g0 [(UploadH, req ''/upload'' [(''key'', [''k''])] ''one'')] mem0)))"
              "handle_all mem_backend g0
                 [(UploadH, req ''/upload'' [(''key'', [''k''])] ''one''),
                  (UploadH, req ''/upload'' [(''key'', [''k''])] ''two'')] mem0"
              "[(DownloadH, req ''/download'' [(''key'', [''k''])] []),
                (DownloadH, req ''/download'' [(''key'', [''q''])] [])]"
              "req ''/download'' [(''key'', [''k''])] []"]
  by (simp add: uploadHandler_def g0_def req_def Query_Get_def mem_backend_def mem_PutObject_def
        mem0_def new_writer_def Write_def WriteHeader_def StatusOK_def called_def Let_def)

subsection \<open>Start-up: the bucket\<close>

lemma world_update_all:
  "(w::'s world)\<lparr>bstate := a, trace := b\<rparr> = \<lparr>bstate = a, trace = b\<rparr>"
  by (cases w) simp

lemma BucketExists_attempt_Suc:
  "BucketExists_attempt be c b s (Suc n) = BucketExists_attempt be c b (snd (BucketExists be c s b)) n"
  by (simp add: BucketExists_attempt_def)

lemma make_if_missing_trace:
  "\<exists>ev. trace (snd (make_if_missing be c b ex w)) = trace w @ ev \<and>
         filter is_BucketExists ev = [] \<and> list_all startup_event ev \<and>
         (\<forall>p. spaced p ev) \<and>
         (fst (make_if_missing be c b ex w) = None \<longrightarrow>
            ex \<or> Call_MakeBucket b None \<in> set ev) \<and>
         (ex \<longrightarrow> ev = [Log (''Bucket already exists: '' @ b @ [newline])] \<and>
                  fst (make_if_missing be c b ex w) = None \<and>
                  bstate (snd (make_if_missing be c b ex w)) = bstate w)"
  by (cases "MakeBucket be c (bstate w) b")
     (auto simp: make_if_missing_def emit_def called_def split: option.splits)

lemma bucket_loop_retry:
  assumes "i < 10" and "minioClient g = Some c"
    and "BucketExists be c (bstate w) (bucketName g) = (Inl err, s')"
    and "w3 = \<lparr>bstate = s', trace = trace w @
            [Call_BucketExists (bucketName g) (Inl err),
             Log (''BucketExists error: '' @ err @ '' (attempt '' @ fmt_d (i + 1)
                   @ ''/10). Retrying in 2s...''),
             Sleep 2]\<rparr>"
  shows "bucket_loop be g i w =
           (if i = 9 then (Some (Fatal (''Failed to connect to MinIO after 10 attempts: '' @ err)), w3)
            else bucket_loop be g (i + 1) w3)"
  using assms by (simp add: bucket_loop.simps [of be g i w] Let_def emit_def called_def world_update_all)

lemma bucket_loop_answer:
  assumes "i < 10" and "minioClient g = Some c"
    and "BucketExists be c (bstate w) (bucketName g) = (Inr ex, s')"
  shows "bucket_loop be g i w =
           (case make_if_missing be c (bucketName g) ex
                   \<lparr>bstate = s', trace = trace w @ [Call_BucketExists (bucketName g) (Inr ex)]\<rparr> of
              (Some msg, w') \<Rightarrow> (Some (Fatal msg), w')
            | (None, w') \<Rightarrow> (None, w'))"
  using assms by (simp add: bucket_loop.simps [of be g i w] called_def world_update_all)


lemma bucket_loop_trace:
  assumes c: "minioClient g = Some c"
  shows "i + n = 10 \<Longrightarrow>
     \<exists>ev. trace (snd (bucket_loop be g i w)) = trace w @ ev \<and>
          length (filter is_BucketExists ev) \<le> n \<and>
          spaced False ev \<and>
          list_all startup_event ev \<and>
          (i < 10 \<and> fst (bucket_loop be g i w) = None \<longrightarrow> bucket_confirmed (bucketName g) ev) \<and>
          (\<forall>oc. fst (bucket_loop be g i w) = Some oc \<longrightarrow> (\<exists>msg. oc = Fatal msg))"
proof (induction n arbitrary: i w)
  case 0
  then have "bucket_loop be g i w = (None, w)" by (subst bucket_loop.simps) simp
  with 0 show ?case by simp
next
  case (Suc n)
  then have i: "i < 10" by simp
  obtain res s' where be: "BucketExists be c (bstate w) (bucketName g) = (res, s')"
    by (cases "BucketExists be c (bstate w) (bucketName g)")
  show ?case
  proof (cases res)
    case (Inr ex)
    define w1 where "w1 = \<lparr>bstate = s', trace = trace w @ [Call_BucketExists (bucketName g) (Inr ex)]\<rparr>"
    from make_if_missing_trace [of be c "bucketName g" ex w1] obtain ev where
      ev: "trace (snd (make_if_missing be c (bucketName g) ex w1)) = trace w1 @ ev"
          "filter is_BucketExists ev = []" "list_all startup_event ev" "\<forall>p. spaced p ev"
          "fst (make_if_missing be c (bucketName g) ex w1) = None \<longrightarrow>
             ex \<or> Call_MakeBucket (bucketName g) None \<in> set ev"
      by (elim exE conjE) (rule that)
    have bl: "bucket_loop be g i w =
                (case make_if_missing be c (bucketName g) ex w1 of
                   (Some msg, w') \<Rightarrow> (Some (Fatal msg), w')
                 | (None, w') \<Rightarrow> (None, w'))"
      using bucket_loop_answer [OF i c be [unfolded Inr]] by (simp add: w1_def)
    obtain m w' where m: "make_if_missing be c (bucketName g) ex w1 = (m, w')"
      by (cases "make_if_missing be c (bucketName g) ex w1")
    have t: "trace w' = trace w @ Call_BucketExists (bucketName g) (Inr ex) # ev"
      using ev(1) m by (simp add: w1_def)
    have conf: "m = None \<longrightarrow>
                  bucket_confirmed (bucketName g) (Call_BucketExists (bucketName g) (Inr ex) # ev)"
      using ev(5) m by (auto simp: bucket_confirmed_def)
    show ?thesis
      by (rule exI [of _ "Call_BucketExists (bucketName g) (Inr ex) # ev"])
         (use bl m t conf ev(2,3,4) in \<open>cases m; simp\<close>)
  next
    case (Inl err)
    define w3 where "w3 = \<lparr>bstate = s', trace = trace w @
            [Call_BucketExists (bucketName g) (Inl err),
             Log (''BucketExists error: '' @ err @ '' (attempt '' @ fmt_d (i + 1)
                   @ ''/10). Retrying in 2s...''),
             Sleep 2]\<rparr>"
    note bl = bucket_loop_retry [OF i c be [unfolded Inl] w3_def]
    show ?thesis
    proof (cases "i = 9")
      case True
      show ?thesis
        by (rule exI [of _ "[Call_BucketExists (bucketName g) (Inl err),
             Log (''BucketExists error: '' @ err @ '' (attempt '' @ fmt_d (i + 1)
                   @ ''/10). Retrying in 2s...''),
             Sleep 2]"])
           (use bl True in \<open>simp add: w3_def\<close>)
    next
      case False
      with Suc.prems have "i + 1 + n = 10" "i + 1 < 10" by simp_all
      from Suc.IH [OF this(1), of w3] obtain ev where
        ev: "trace (snd (bucket_loop be g (i + 1) w3)) = trace w3 @ ev"
            "length (filter is_BucketExists ev) \<le> n" "spaced False ev" "list_all startup_event ev"
            "fst (bucket_loop be g (i + 1) w3) = None \<longrightarrow> bucket_confirmed (bucketName g) ev"
            "\<forall>oc. fst (bucket_loop be g (i + 1) w3) = Some oc \<longrightarrow> (\<exists>msg. oc = Fatal msg)"
        using \<open>i + 1 < 10\<close> by auto
      show ?thesis
        by (rule exI [of _ "[Call_BucketExists (bucketName g) (Inl err),
             Log (''BucketExists error: '' @ err @ '' (attempt '' @ fmt_d (i + 1)
                   @ ''/10). Retrying in 2s...''),
             Sleep 2] @ ev"])
           (use bl False ev in \<open>auto simp: w3_def bucket_confirmed_def\<close>)
    qed
  qed
qed

lemma bucket_loop_all_fail:
  assumes c: "minioClient g = Some c"
  shows "i + Suc n = 10 \<Longrightarrow>
     \<forall>j\<le>n. isl (BucketExists_attempt be c (bucketName g) (bstate w) j) \<Longrightarrow>
     fst (bucket_loop be g i w) =
       Some (Fatal (''Failed to connect to MinIO after 10 attempts: ''
                    @ projl (BucketExists_attempt be c (bucketName g) (bstate w) n))) \<and>
     length (filter is_BucketExists (added w (snd (bucket_loop be g i w)))) = Suc n \<and>
     length (filter (\<lambda>e. e = Sleep 2) (added w (snd (bucket_loop be g i w)))) = Suc n"
proof (induction n arbitrary: i w)
  case 0
  then have i: "i < 10" "i = 9" by simp_all
  obtain res s' where be: "BucketExists be c (bstate w) (bucketName g) = (res, s')"
    by (cases "BucketExists be c (bstate w) (bucketName g)")
  from 0 have "isl (BucketExists_attempt be c (bucketName g) (bstate w) 0)" by simp
  with be obtain err where res: "res = Inl err"
    by (cases res) (simp_all add: BucketExists_attempt_def)
  from bucket_loop_retry [OF i(1) c be [unfolded res] refl] i(2) be res
  show ?case by (simp add: BucketExists_attempt_def added_def)
next
  case (Suc n)
  then have i: "i < 10" "i \<noteq> 9" "i + 1 + Suc n = 10" by simp_all
  obtain res s' where be: "BucketExists be c (bstate w) (bucketName g) = (res, s')"
    by (cases "BucketExists be c (bstate w) (bucketName g)")
  from Suc.prems(2) have "isl (BucketExists_attempt be c (bucketName g) (bstate w) 0)" by blast
  with be obtain err where res: "res = Inl err"
    by (cases res) (simp_all add: BucketExists_attempt_def)
  define w3 where "w3 = \<lparr>bstate = s', trace = trace w @
            [Call_BucketExists (bucketName g) (Inl err),
             Log (''BucketExists error: '' @ err @ '' (attempt '' @ fmt_d (i + 1)
                   @ ''/10). Retrying in 2s...''),
             Sleep 2]\<rparr>"
  have bl: "bucket_loop be g i w = bucket_loop be g (i + 1) w3"
    using bucket_loop_retry [OF i(1) c be [unfolded res] w3_def] i(2) by simp
  have sh: "\<And>j. BucketExists_attempt be c (bucketName g) (bstate w) (Suc j)
              = BucketExists_attempt be c (bucketName g) (bstate w3) j"
    using be by (simp add: BucketExists_attempt_Suc w3_def)
  have "\<forall>j\<le>n. isl (BucketExists_attempt be c (bucketName g) (bstate w3) j)"
    using Suc.prems(2) sh by (metis Suc_le_mono)
  note ih = Suc.IH [OF i(3) this]
  obtain ev where ev: "trace (snd (bucket_loop be g (i + 1) w3)) = trace w3 @ ev"
    using bucket_loop_trace [OF c, of "i + 1" "Suc n" be w3] i(3) by auto
  then have a3: "added w3 (snd (bucket_loop be g (i + 1) w3)) = ev" by (simp add: added_def)
  have a: "added w (snd (bucket_loop be g i w)) =
             [Call_BucketExists (bucketName g) (Inl err),
              Log (''BucketExists error: '' @ err @ '' (attempt '' @ fmt_d (i + 1)
                   @ ''/10). Retrying in 2s...''),
              Sleep 2] @ ev"
    using ev by (simp add: bl added_def w3_def)
  show ?case using ih unfolding a a3 by (simp add: bl sh)
qed

lemma bucket_loop_found:
  assumes c: "minioClient g = Some c"
  shows "i + k < 10 \<Longrightarrow>
     \<forall>j<k. isl (BucketExists_attempt be c (bucketName g) (bstate w) j) \<Longrightarrow>
     BucketExists_attempt be c (bucketName g) (bstate w) k = Inr True \<Longrightarrow>
     fst (bucket_loop be g i w) = None \<and>
     bstate (snd (bucket_loop be g i w)) = BucketExists_state be c (bucketName g) (bstate w) (Suc k) \<and>
     filter is_MakeBucket (added w (snd (bucket_loop be g i w))) = []"
proof (induction k arbitrary: i w)
  case 0
  then have i: "i < 10" by simp
  obtain res s' where be: "BucketExists be c (bstate w) (bucketName g) = (res, s')"
    by (cases "BucketExists be c (bstate w) (bucketName g)")
  with 0 have res: "res = Inr True" by (simp add: BucketExists_attempt_def)
  from bucket_loop_answer [OF i c be [unfolded res]] be
  show ?case by (simp add: make_if_missing_def emit_def added_def)
next
  case (Suc k)
  then have i: "i < 10" "i \<noteq> 9" "i + 1 + k < 10" by simp_all
  obtain res s' where be: "BucketExists be c (bstate w) (bucketName g) = (res, s')"
    by (cases "BucketExists be c (bstate w) (bucketName g)")
  from Suc.prems(2) have "isl (BucketExists_attempt be c (bucketName g) (bstate w) 0)" by blast
  with be obtain err where res: "res = Inl err"
    by (cases res) (simp_all add: BucketExists_attempt_def)
  define w3 where "w3 = \<lparr>bstate = s', trace = trace w @
            [Call_BucketExists (bucketName g) (Inl err),
             Log (''BucketExists error: '' @ err @ '' (attempt '' @ fmt_d (i + 1)
                   @ ''/10). Retrying in 2s...''),
             Sleep 2]\<rparr>"
  have bl: "bucket_loop be g i w = bucket_loop be g (i + 1) w3"
    using bucket_loop_retry [OF i(1) c be [unfolded res] w3_def] i(2) by simp
  have sh: "\<And>j. BucketExists_attempt be c (bucketName g) (bstate w) (Suc j)
              = BucketExists_attempt be c (bucketName g) (bstate w3) j"
    using be by (simp add: BucketExists_attempt_Suc w3_def)
  have p1: "\<forall>j<k. isl (BucketExists_attempt be c (bucketName g) (bstate w3) j)"
    using Suc.prems(2) sh by (metis Suc_less_eq)
  have p2: "BucketExists_attempt be c (bucketName g) (bstate w3) k = Inr True"
    using Suc.prems(3) sh by simp
  note ih = Suc.IH [OF i(3) p1 p2]
  have n: "i + 1 + (9 - i) = 10" using i(1) by simp
  obtain ev where ev: "trace (snd (bucket_loop be g (i + 1) w3)) = trace w3 @ ev"
    using bucket_loop_trace [OF c n, of be w3] by auto
  then have a3: "added w3 (snd (bucket_loop be g (i + 1) w3)) = ev" by (simp add: added_def)
  have a: "added w (snd (bucket_loop be g i w)) =
             [Call_BucketExists (bucketName g) (Inl err),
              Log (''BucketExists error: '' @ err @ '' (attempt '' @ fmt_d (i + 1)
                   @ ''/10). Retrying in 2s...''),
              Sleep 2] @ ev"
    using ev by (simp add: bl added_def w3_def)
  have st: "BucketExists_state be c (bucketName g) (bstate w) (Suc (Suc k)) =
            BucketExists_state be c (bucketName g) (bstate w3) (Suc k)"
    using be by (simp add: w3_def)
  show ?case using ih unfolding a a3 st by (simp add: bl)
qed

subsection \<open>Start-up: the connect loop\<close>

lemma New_attempt_Suc:
  "New_attempt be ep opts s (Suc n) = New_attempt be ep opts (snd (New be s ep opts)) n"
  by (simp add: New_attempt_def)

lemma map_upt_shift: "map f [0..<Suc n] = f 0 # map (\<lambda>i. f (Suc i)) [0..<n]"
  by (simp add: map_upt_Suc del: upt_Suc)

lemma connect_after_failures:
  "(\<forall>i<N. isl (New_attempt be ep opts (bstate w) i)) \<Longrightarrow>
   New_attempt be ep opts (bstate w) N = Inr c \<Longrightarrow>
   connect be ep opts g w =
     Some (g\<lparr>minioClient := Some c\<rparr>,
           \<lparr>bstate = New_state be ep opts (bstate w) (Suc N),
            trace = trace w
              @ concat (map (\<lambda>i. connect_retry ep opts (projl (New_attempt be ep opts (bstate w) i)))
                          [0..<N])
              @ [Call_New ep opts None]\<rparr>)"
proof (induction N arbitrary: g w)
  case 0
  then show ?case
    by (cases "New be (bstate w) ep opts")
       (simp add: connect.simps [of be ep opts g w] New_attempt_def called_def world_update_all)
next
  case (Suc N)
  obtain res s' where n: "New be (bstate w) ep opts = (res, s')"
    by (cases "New be (bstate w) ep opts")
  from Suc.prems(1) have "isl (New_attempt be ep opts (bstate w) 0)" by blast
  with n obtain err where res: "res = Inl err"
    by (cases res) (simp_all add: New_attempt_def)
  define w' where "w' = emit (Sleep 2) (emit (Log (''Waiting for MinIO to be ready: '' @ err))
               (called (Call_New ep opts (Some err)) s' w))"
  have b: "bstate w' = s'" by (simp add: w'_def emit_def called_def)
  have t: "trace w' = trace w @ connect_retry ep opts err"
    by (simp add: w'_def emit_def called_def connect_retry_def)
  have sh: "\<And>i. New_attempt be ep opts (bstate w) (Suc i) = New_attempt be ep opts s' i"
    using n by (simp add: New_attempt_Suc)
  have p1: "\<forall>i<N. isl (New_attempt be ep opts (bstate w') i)"
    using Suc.prems(1) sh b by auto
  have p2: "New_attempt be ep opts (bstate w') N = Inr c"
    using Suc.prems(2) sh b by simp
  have e0: "projl (New_attempt be ep opts (bstate w) 0) = err"
    using n res by (simp add: New_attempt_def)
  have step: "connect be ep opts g w = connect be ep opts (g\<lparr>minioClient := None\<rparr>) w'"
    using n res by (simp add: connect.simps [of be ep opts g w] w'_def)
  show ?case
    unfolding step Suc.IH [OF p1 p2, of "g\<lparr>minioClient := None\<rparr>"]
    using n by (simp add: b t map_upt_shift sh e0 del: upt_Suc)
qed

lemma connect_returns:
  assumes "connect be ep opts g w = Some y"
  shows "\<exists>N c. (\<forall>i<N. isl (New_attempt be ep opts (bstate w) i)) \<and>
            New_attempt be ep opts (bstate w) N = Inr c"
  using assms
proof (induct rule: connect.raw_induct [rotated 1, consumes 1, case_names step])
  case (step connect' be ep opts g w y)
  obtain res s' where n: "New be (bstate w) ep opts = (res, s')"
    by (cases "New be (bstate w) ep opts")
  show ?case
  proof (cases res)
    case (Inr c)
    with n have "New_attempt be ep opts (bstate w) 0 = Inr c" by (simp add: New_attempt_def)
    then show ?thesis by (intro exI [of _ 0]) simp
  next
    case (Inl err)
    define w' where "w' = emit (Sleep 2) (emit (Log (''Waiting for MinIO to be ready: '' @ err))
               (called (Call_New ep opts (Some err)) s' w))"
    have b: "bstate w' = s'" by (simp add: w'_def emit_def called_def)
    from step(2) n Inl have "connect' be ep opts (g\<lparr>minioClient := None\<rparr>) w' = Some y"
      by (simp add: w'_def)
    from step(1) [OF this] b obtain N c where
      N: "\<forall>i<N. isl (New_attempt be ep opts s' i)" "New_attempt be ep opts s' N = Inr c"
      by auto
    have sh: "\<And>i. New_attempt be ep opts (bstate w) (Suc i) = New_attempt be ep opts s' i"
      using n by (simp add: New_attempt_Suc)
    have z: "isl (New_attempt be ep opts (bstate w) 0)"
      using n Inl by (simp add: New_attempt_def)
    have "\<forall>i<Suc N. isl (New_attempt be ep opts (bstate w) i)"
    proof (intro allI impI)
      fix i assume "i < Suc N"
      then show "isl (New_attempt be ep opts (bstate w) i)"
        using z N(1) sh by (cases i) auto
    qed
    moreover have "New_attempt be ep opts (bstate w) (Suc N) = Inr c" using N(2) sh by simp
    ultimately show ?thesis by blast
  qed
qed

lemma connect_never_returns:
  assumes "\<forall>i. isl (New_attempt be ep opts (bstate w) i)"
  shows "connect be ep opts g w = None"
proof (cases "connect be ep opts g w")
  case None
  then show ?thesis .
next
  case (Some y)
  from connect_returns [OF this] obtain N c where "New_attempt be ep opts (bstate w) N = Inr c"
    by blast
  moreover from assms have "isl (New_attempt be ep opts (bstate w) N)" by blast
  ultimately show ?thesis by simp
qed

lemma connect_retry_startup: "list_all startup_event (connect_retry ep opts err)"
  by (simp add: connect_retry_def)

lemma connect_result:
  assumes "connect be ep opts g w = Some (g1, w1)"
  shows "\<exists>c ev. g1 = g\<lparr>minioClient := Some c\<rparr> \<and> trace w1 = trace w @ ev \<and> list_all startup_event ev"
proof -
  from connect_returns [OF assms] obtain N c where
    N: "\<forall>i<N. isl (New_attempt be ep opts (bstate w) i)" "New_attempt be ep opts (bstate w) N = Inr c"
    by blast
  have "list_all startup_event
          (concat (map (\<lambda>i. connect_retry ep opts (projl (New_attempt be ep opts (bstate w) i))) [0..<N])
           @ [Call_New ep opts None])"
    by (simp add: list_all_iff connect_retry_def)
  with connect_after_failures [OF N, of g] assms show ?thesis by auto
qed

lemma main_unfold:
  assumes "godotenv_Load e (environ e) = (lerr, vars)"
    and "w0 = (case lerr of Some _ \<Rightarrow> emit (Log ''No .env file found or failed to load it'') w
               | None \<Rightarrow> w)"
  shows "main be e w =
     (case config_of vars of
        None \<Rightarrow> Some (Fatal ''One or more required environment variables are missing'', w0)
      | Some (ep, opts, b) \<Rightarrow>
          (case connect be ep opts \<lparr>minioClient = None, bucketName = b, mux = []\<rparr> w0 of
             None \<Rightarrow> None
           | Some (g1, w1) \<Rightarrow>
               (case bucket_loop be g1 0 (emit (Log ''Connected to MinIO'') w1) of
                  (Some out, w2) \<Rightarrow> Some (out, w2)
                | (None, w2) \<Rightarrow> Some (routes_and_listen e g1 w2))))"
  using assms by (simp add: main_def config_of_def Let_def)

lemma main_part_000_unfold:
  "main_part_000 be e w =
     (case config_of (environ e) of
        None \<Rightarrow> Some (Fatal ''One or more required environment variables are missing'', w)
      | Some (ep, opts, b) \<Rightarrow>
          (case connect be ep opts \<lparr>minioClient = None, bucketName = b, mux = []\<rparr> w of
             None \<Rightarrow> None
           | Some (g1, w1) \<Rightarrow>
               (case bucket_once be g1 (emit (Log ''Connected to MinIO'') w1) of
                  (Some out, w2) \<Rightarrow> Some (out, w2)
                | (None, w2) \<Rightarrow> Some (routes_and_listen e g1 w2))))"
  by (simp add: main_part_000_def config_of_def Let_def)

lemma refusing_always:
  "New_attempt refusing_backend ep opts s n = Inl ''connection refused''"
proof -
  have "New_state refusing_backend ep opts s n = s"
    by (induction n arbitrary: s) (simp_all add: refusing_backend_def)
  then show ?thesis by (simp add: New_attempt_def refusing_backend_def)
qed

text \<open>
  C6. The connect loop of both files. When the first \<open>N\<close> calls of \<^verbatim>\<open>minio.New\<close> fail
  and the next one returns the client \<open>c\<close>, the loop ends with \<open>minioClient\<close> set to
  \<open>c\<close>, and what it did is, for each failed call, the call, the log line and a sleep
  of two seconds, and then the call that succeeded. The loop ends exactly when some
  call of \<^verbatim>\<open>New\<close> succeeds. When every call fails the loop never ends, and then
  \<^verbatim>\<open>main\<close>, with its four settings present, has no outcome: it neither ends fatally
  nor reaches the listener.
\<close>

theorem connect_retries_without_bound:
  "((\<forall>i<N. isl (New_attempt be ep opts (bstate w) i)) \<and> New_attempt be ep opts (bstate w) N = Inr c \<longrightarrow>
      connect be ep opts g w =
        Some (g\<lparr>minioClient := Some c\<rparr>,
              \<lparr>bstate = New_state be ep opts (bstate w) (Suc N),
               trace = trace w
                 @ concat (map (\<lambda>i. connect_retry ep opts (projl (New_attempt be ep opts (bstate w) i)))
                             [0..<N])
                 @ [Call_New ep opts None]\<rparr>)) \<and>
   (connect be ep opts g w \<noteq> None \<longleftrightarrow> (\<exists>n. \<not> isl (New_attempt be ep opts (bstate w) n))) \<and>
   ((\<forall>n. isl (New_attempt be ep opts (bstate w) n)) \<and>
    config_of (snd (godotenv_Load e (environ e))) = Some (ep, opts, b) \<longrightarrow> main be e w = None) \<and>
   ((\<forall>n. isl (New_attempt be ep opts (bstate w) n)) \<and>
    config_of (environ e) = Some (ep, opts, b) \<longrightarrow> main_part_000 be e w = None)"
proof (intro conjI impI)
  assume "(\<forall>i<N. isl (New_attempt be ep opts (bstate w) i)) \<and> New_attempt be ep opts (bstate w) N = Inr c"
  then show "connect be ep opts g w =
        Some (g\<lparr>minioClient := Some c\<rparr>,
              \<lparr>bstate = New_state be ep opts (bstate w) (Suc N),
               trace = trace w
                 @ concat (map (\<lambda>i. connect_retry ep opts (projl (New_attempt be ep opts (bstate w) i)))
                             [0..<N])
                 @ [Call_New ep opts None]\<rparr>)"
    by (intro connect_after_failures) simp_all
next
  show "connect be ep opts g w \<noteq> None \<longleftrightarrow> (\<exists>n. \<not> isl (New_attempt be ep opts (bstate w) n))"
  proof
    assume r: "connect be ep opts g w \<noteq> None"
    show "\<exists>n. \<not> isl (New_attempt be ep opts (bstate w) n)"
    proof (rule ccontr)
      assume "\<not> (\<exists>n. \<not> isl (New_attempt be ep opts (bstate w) n))"
      then have "\<forall>n. isl (New_attempt be ep opts (bstate w) n)" by simp
      from connect_never_returns [OF this, of g] r show False by simp
    qed
  next
    assume "\<exists>n. \<not> isl (New_attempt be ep opts (bstate w) n)"
    then obtain n where n: "\<not> isl (New_attempt be ep opts (bstate w) n)"
      and least: "\<forall>i<n. isl (New_attempt be ep opts (bstate w) i)"
      using exists_least_iff [of "\<lambda>n. \<not> isl (New_attempt be ep opts (bstate w) n)"] by auto
    from n obtain c' where "New_attempt be ep opts (bstate w) n = Inr c'"
      by (cases "New_attempt be ep opts (bstate w) n") simp_all
    from connect_after_failures [OF least this, of g]
    show "connect be ep opts g w \<noteq> None" by simp
  qed
next
  assume a: "(\<forall>n. isl (New_attempt be ep opts (bstate w) n)) \<and>
    config_of (snd (godotenv_Load e (environ e))) = Some (ep, opts, b)"
  obtain lerr vars where l: "godotenv_Load e (environ e) = (lerr, vars)"
    by (cases "godotenv_Load e (environ e)")
  define w0 where "w0 = (case lerr of Some _ \<Rightarrow> emit (Log ''No .env file found or failed to load it'') w
               | None \<Rightarrow> w)"
  have "bstate w0 = bstate w" by (simp add: w0_def emit_def split: option.splits)
  with a have "connect be ep opts \<lparr>minioClient = None, bucketName = b, mux = []\<rparr> w0 = None"
    using connect_never_returns [of be ep opts w0] by simp
  with a l show "main be e w = None"
    by (simp add: main_unfold [OF l w0_def])
next
  assume a: "(\<forall>n. isl (New_attempt be ep opts (bstate w) n)) \<and>
    config_of (environ e) = Some (ep, opts, b)"
  then have "connect be ep opts \<lparr>minioClient = None, bucketName = b, mux = []\<rparr> w = None"
    using connect_never_returns [of be ep opts w] by simp
  with a show "main_part_000 be e w = None"
    by (simp add: main_part_000_unfold)
qed


lemma bucket_once_trace:
  assumes c: "minioClient g = Some c"
  shows "\<exists>ev. trace (snd (bucket_once be g w)) = trace w @ ev \<and>
          list_all startup_event ev \<and>
          (fst (bucket_once be g w) = None \<longrightarrow> bucket_confirmed (bucketName g) ev) \<and>
          (\<forall>oc. fst (bucket_once be g w) = Some oc \<longrightarrow> (\<exists>msg. oc = Fatal msg))"
proof -
  obtain res s' where be: "BucketExists be c (bstate w) (bucketName g) = (res, s')"
    by (cases "BucketExists be c (bstate w) (bucketName g)")
  show ?thesis
  proof (cases res)
    case (Inl err)
    show ?thesis
      by (rule exI [of _ "[Call_BucketExists (bucketName g) (Inl err)]"])
         (use c be Inl in \<open>simp add: bucket_once_def called_def\<close>)
  next
    case (Inr ex)
    define w1 where "w1 = called (Call_BucketExists (bucketName g) (Inr ex)) s' w"
    from make_if_missing_trace [of be c "bucketName g" ex w1] obtain ev where
      ev: "trace (snd (make_if_missing be c (bucketName g) ex w1)) = trace w1 @ ev"
          "filter is_BucketExists ev = []" "list_all startup_event ev" "\<forall>p. spaced p ev"
          "fst (make_if_missing be c (bucketName g) ex w1) = None \<longrightarrow>
             ex \<or> Call_MakeBucket (bucketName g) None \<in> set ev"
      by (elim exE conjE) (rule that)
    obtain m w' where m: "make_if_missing be c (bucketName g) ex w1 = (m, w')"
      by (cases "make_if_missing be c (bucketName g) ex w1")
    have bo: "bucket_once be g w = (case m of Some msg \<Rightarrow> (Some (Fatal msg), w') | None \<Rightarrow> (None, w'))"
      using c be Inr m by (simp add: bucket_once_def w1_def split: option.splits)
    have t: "trace w' = trace w @ Call_BucketExists (bucketName g) (Inr ex) # ev"
      using ev(1) m by (simp add: w1_def called_def)
    have conf: "m = None \<longrightarrow>
                  bucket_confirmed (bucketName g) (Call_BucketExists (bucketName g) (Inr ex) # ev)"
      using ev(5) m by (auto simp: bucket_confirmed_def)
    show ?thesis
      by (rule exI [of _ "Call_BucketExists (bucketName g) (Inr ex) # ev"])
         (use bo t conf ev(3) in \<open>cases m; simp\<close>)
  qed
qed

lemma bucket_once_found:
  assumes "minioClient g = Some c"
    and "BucketExists_attempt be c (bucketName g) (bstate w) 0 = Inr True"
  shows "bucket_once be g w =
           (None, \<lparr>bstate = BucketExists_state be c (bucketName g) (bstate w) (Suc 0),
                   trace = trace w @ [Call_BucketExists (bucketName g) (Inr True),
                                      Log (''Bucket already exists: '' @ bucketName g @ [newline])]\<rparr>)"
  using assms
  by (cases "BucketExists be c (bstate w) (bucketName g)")
     (simp add: bucket_once_def BucketExists_attempt_def make_if_missing_def emit_def called_def
        world_update_all)

lemma bucket_loop_found_at_once:
  assumes "minioClient g = Some c"
    and "BucketExists_attempt be c (bucketName g) (bstate w) 0 = Inr True"
    and "i < 10"
  shows "bucket_loop be g i w =
           (None, \<lparr>bstate = BucketExists_state be c (bucketName g) (bstate w) (Suc 0),
                   trace = trace w @ [Call_BucketExists (bucketName g) (Inr True),
                                      Log (''Bucket already exists: '' @ bucketName g @ [newline])]\<rparr>)"
proof -
  obtain s' where be: "BucketExists be c (bstate w) (bucketName g) = (Inr True, s')"
    using assms(2) by (cases "BucketExists be c (bstate w) (bucketName g)")
      (simp add: BucketExists_attempt_def)
  from bucket_loop_answer [OF assms(3,1) be] be show ?thesis
    by (simp add: make_if_missing_def emit_def world_update_all)
qed

text \<open>
  C4. When the first \<open>k\<close> calls of \<^verbatim>\<open>BucketExists\<close> fail and the next one answers
  that the bucket exists: for \<open>k < 10\<close> the loop of \<^verbatim>\<open>src/server/main.go\<close> is left to
  go on to the routes (its result is \<open>None\<close>, no fatal end), it has made no call of
  \<^verbatim>\<open>MakeBucket\<close>, and the backend state is the one the queries left. For \<open>k = 0\<close> the
  events added are the query and the log line, and the single query of \<^verbatim>\<open>part_000\<close>
  does the same.
\<close>

theorem existing_bucket_is_left_alone:
  assumes "minioClient g = Some c"
    and "\<forall>j<k. isl (BucketExists_attempt be c (bucketName g) (bstate w) j)"
    and "BucketExists_attempt be c (bucketName g) (bstate w) k = Inr True"
  shows "(k < 10 \<longrightarrow>
            fst (bucket_loop be g 0 w) = None \<and>
            filter is_MakeBucket (added w (snd (bucket_loop be g 0 w))) = [] \<and>
            bstate (snd (bucket_loop be g 0 w)) =
              BucketExists_state be c (bucketName g) (bstate w) (Suc k)) \<and>
         (k = 0 \<longrightarrow>
            bucket_loop be g 0 w =
              (None, \<lparr>bstate = BucketExists_state be c (bucketName g) (bstate w) (Suc 0),
                      trace = trace w @ [Call_BucketExists (bucketName g) (Inr True),
                                         Log (''Bucket already exists: '' @ bucketName g @ [newline])]\<rparr>) \<and>
            bucket_once be g w = bucket_loop be g 0 w)"
proof -
  have a: "fst (bucket_loop be g 0 w) = None \<and>
            filter is_MakeBucket (added w (snd (bucket_loop be g 0 w))) = [] \<and>
            bstate (snd (bucket_loop be g 0 w)) =
              BucketExists_state be c (bucketName g) (bstate w) (Suc k)"
    if "k < 10"
  proof -
    from that have "0 + k < 10" by simp
    from bucket_loop_found [OF assms(1) this assms(2,3)] show ?thesis by simp
  qed
  have b: "bucket_loop be g 0 w =
              (None, \<lparr>bstate = BucketExists_state be c (bucketName g) (bstate w) (Suc 0),
                      trace = trace w @ [Call_BucketExists (bucketName g) (Inr True),
                                         Log (''Bucket already exists: '' @ bucketName g @ [newline])]\<rparr>) \<and>
            bucket_once be g w = bucket_loop be g 0 w"
    if "k = 0"
  proof -
    from that assms(3) have z: "BucketExists_attempt be c (bucketName g) (bstate w) 0 = Inr True"
      by simp
    show ?thesis
      using bucket_loop_found_at_once [OF assms(1) z, of 0] bucket_once_found [OF assms(1) z]
      by simp
  qed
  show ?thesis using a b by blast
qed

lemma added_append: "trace w' = trace w @ ev \<Longrightarrow> added w w' = ev"
  by (simp add: added_def)

lemma startup_not_listen: "list_all startup_event ev \<Longrightarrow> Call_ListenAndServe a \<notin> set ev"
  by (auto simp: list_all_iff)

text \<open>
  C5. The loop of \<^verbatim>\<open>src/server/main.go\<close>, from \<open>i = 0\<close>: it calls \<^verbatim>\<open>BucketExists\<close> at
  most 10 times, and between any two of these calls it sleeps two seconds. When the
  first 10 calls all fail, the process ends fatally with the message
  \<^verbatim>\<open>Failed to connect to MinIO after 10 attempts: \<close> followed by the error of the tenth
  call, after 10 calls and 10 sleeps, and \<^verbatim>\<open>ListenAndServe\<close> was not called; for
  \<^verbatim>\<open>main\<close> as a whole, that fatal end is the outcome and no request is served.
\<close>

theorem bucket_check_is_bounded:
  assumes "minioClient g = Some c"
  shows "length (filter is_BucketExists (added w (snd (bucket_loop be g 0 w)))) \<le> 10 \<and>
         spaced False (added w (snd (bucket_loop be g 0 w))) \<and>
         ((\<forall>j<10. isl (BucketExists_attempt be c (bucketName g) (bstate w) j)) \<longrightarrow>
            fst (bucket_loop be g 0 w) =
              Some (Fatal (''Failed to connect to MinIO after 10 attempts: ''
                           @ projl (BucketExists_attempt be c (bucketName g) (bstate w) 9))) \<and>
            length (filter is_BucketExists (added w (snd (bucket_loop be g 0 w)))) = 10 \<and>
            length (filter (\<lambda>e. e = Sleep 2) (added w (snd (bucket_loop be g 0 w)))) = 10 \<and>
            Call_ListenAndServe '':8080'' \<notin> set (added w (snd (bucket_loop be g 0 w)))) \<and>
         ((\<forall>j<10. isl (BucketExists_attempt be c (bucketName g) (bstate w) j)) \<and>
          godotenv_Load e (environ e) = (lerr, vars) \<and>
          config_of vars = Some (ep, opts, b) \<and>
          connect be ep opts \<lparr>minioClient = None, bucketName = b, mux = []\<rparr>
            (case lerr of Some _ \<Rightarrow> emit (Log ''No .env file found or failed to load it'') ws
             | None \<Rightarrow> ws) = Some (g, w1) \<and>
          w = emit (Log ''Connected to MinIO'') w1 \<longrightarrow>
            serve_after be rs (main be e ws) =
              Some (Fatal (''Failed to connect to MinIO after 10 attempts: ''
                           @ projl (BucketExists_attempt be c (bucketName g) (bstate w) 9)),
                    [], snd (bucket_loop be g 0 w)))"
proof -
  from bucket_loop_trace [OF assms, of 0 10 be w] obtain ev where
    ev: "trace (snd (bucket_loop be g 0 w)) = trace w @ ev"
        "length (filter is_BucketExists ev) \<le> 10" "spaced False ev" "list_all startup_event ev"
    by auto
  note a = added_append [OF ev(1)]
  have fail: "fst (bucket_loop be g 0 w) =
              Some (Fatal (''Failed to connect to MinIO after 10 attempts: ''
                           @ projl (BucketExists_attempt be c (bucketName g) (bstate w) 9))) \<and>
            length (filter is_BucketExists (added w (snd (bucket_loop be g 0 w)))) = 10 \<and>
            length (filter (\<lambda>e. e = Sleep 2) (added w (snd (bucket_loop be g 0 w)))) = 10"
    if "\<forall>j<10. isl (BucketExists_attempt be c (bucketName g) (bstate w) j)"
  proof -
    from that have "\<forall>j\<le>9. isl (BucketExists_attempt be c (bucketName g) (bstate w) j)" by auto
    from bucket_loop_all_fail [OF assms, of 0 9 be w, OF _ this] show ?thesis by simp
  qed
  have m: "serve_after be rs (main be e ws) =
              Some (Fatal (''Failed to connect to MinIO after 10 attempts: ''
                           @ projl (BucketExists_attempt be c (bucketName g) (bstate w) 9)),
                    [], snd (bucket_loop be g 0 w))"
    if f: "\<forall>j<10. isl (BucketExists_attempt be c (bucketName g) (bstate w) j)"
      and l: "godotenv_Load e (environ e) = (lerr, vars)"
      and cf: "config_of vars = Some (ep, opts, b)"
      and cn: "connect be ep opts \<lparr>minioClient = None, bucketName = b, mux = []\<rparr>
            (case lerr of Some _ \<Rightarrow> emit (Log ''No .env file found or failed to load it'') ws
             | None \<Rightarrow> ws) = Some (g, w1)"
      and w: "w = emit (Log ''Connected to MinIO'') w1"
  proof -
    obtain x w2 where bl: "bucket_loop be g 0 w = (x, w2)" by (cases "bucket_loop be g 0 w")
    with fail [OF f] have x: "x = Some (Fatal (''Failed to connect to MinIO after 10 attempts: ''
                           @ projl (BucketExists_attempt be c (bucketName g) (bstate w) 9)))" by simp
    show ?thesis
      using cf cn bl x w by (simp add: main_unfold [OF l refl] serve_after_def)
  qed
  show ?thesis
    using ev(2,3) fail m startup_not_listen [OF ev(4)] unfolding a by blast
qed

subsection \<open>Start-up, then requests\<close>

lemma handler_trace:
  assumes "call_handler h be g rw r w = Return (rw', w')"
  shows "\<exists>ev. trace w' = trace w @ ev \<and> list_all request_event ev"
proof (cases h)
  case UploadH
  with assms show ?thesis
    by (cases "PutObject be (the (minioClient g)) (bstate w) (bucketName g)
                 (Query_Get (url_query r) ''key'') (req_body r) (- 1)")
       (auto simp: uploadHandler_def called_def Let_def split: if_splits option.splits)
next
  case DownloadH
  with assms show ?thesis
    by (cases "GetObject be (the (minioClient g)) (bstate w) (bucketName g)
                 (Query_Get (url_query r) ''key'')")
       (auto simp: downloadHandler_def called_def emit_def Let_def
             split: if_splits option.splits sum.splits)
next
  case ListH
  with assms show ?thesis
    by (cases "ListObjects be (the (minioClient g)) (bstate w) (bucketName g) True")
       (auto simp: listHandler_def called_def split: option.splits)
qed

lemma ServeHTTP_trace:
  assumes "ServeHTTP be g r w = Return (rw', w')"
  shows "\<exists>ev. trace w' = trace w @ ev \<and> list_all request_event ev"
proof (cases "map_of (mux g) (url_path r)")
  case None
  with assms show ?thesis by (simp add: ServeHTTP_def)
next
  case (Some h)
  with assms obtain rw1 where "call_handler h be g new_writer r w = Return (rw1, w')"
    by (auto simp: ServeHTTP_def split: result.splits)
  from handler_trace [OF this] show ?thesis .
qed

lemma serve_requests_trace:
  "\<exists>ev. trace (snd (serve_requests be g rs w)) = trace w @ ev \<and> list_all request_event ev"
proof (induction rs arbitrary: w)
  case Nil
  then show ?case by simp
next
  case (Cons r rs)
  show ?case
  proof (cases "ServeHTTP be g r w")
    case Panic
    with Cons.IH [of w] show ?thesis by (auto split: prod.splits)
  next
    case (Return p)
    obtain rw1 w1 where p: "p = (rw1, w1)" by (cases p)
    from ServeHTTP_trace [OF Return [unfolded p]] obtain ev1 where
      e1: "trace w1 = trace w @ ev1" "list_all request_event ev1" by blast
    from Cons.IH [of w1] obtain ev2 where
      e2: "trace (snd (serve_requests be g rs w1)) = trace w1 @ ev2" "list_all request_event ev2"
      by blast
    show ?thesis
      by (rule exI [of _ "ev1 @ ev2"]) (use Return p e1 e2 in \<open>auto split: prod.splits\<close>)
  qed
qed

lemma phased_startup:
  "list_all startup_event pre \<Longrightarrow> phased False (pre @ es) = phased False es"
proof (induction pre)
  case Nil
  then show ?case by simp
next
  case (Cons e pre)
  then show ?case by (cases e) simp_all
qed

lemma phased_requests: "list_all request_event post \<Longrightarrow> phased True post"
proof (induction post)
  case Nil
  then show ?case by simp
next
  case (Cons e post)
  then show ?case by (cases e) simp_all
qed

lemma before_listen_startup:
  "list_all startup_event pre \<Longrightarrow> before_listen (pre @ Call_ListenAndServe '':8080'' # post) = pre"
  unfolding before_listen_def
  by (induction pre) (auto)

lemma routes_and_listen_result:
  "\<exists>oc. routes_and_listen e g w =
          (oc, \<lparr>bstate = bstate w, trace = trace w @ route_events @ [Call_ListenAndServe '':8080'']\<rparr>) \<and>
        (oc = Serving (g\<lparr>mux := mux g @ [(''/upload'', UploadH), (''/download'', DownloadH),
                                         (''/list'', ListH)]\<rparr>) \<or>
         (\<exists>msg. oc = Fatal msg))"
  by (cases "ListenAndServe e '':8080''")
     (simp_all add: routes_and_listen_def HandleFunc_def emit_def route_events_def Let_def
        world_update_all)

lemma startup_shape:
  assumes tw: "trace w0 = pre0" and p0: "list_all startup_event pre0"
    and ens: "\<And>g1 w1. minioClient g1 \<noteq> None \<Longrightarrow>
         \<exists>ev. trace (snd (ensure g1 w1)) = trace w1 @ ev \<and> list_all startup_event ev \<and>
              (fst (ensure g1 w1) = None \<longrightarrow> bucket_confirmed (bucketName g1) ev) \<and>
              (\<forall>oc. fst (ensure g1 w1) = Some oc \<longrightarrow> (\<exists>msg. oc = Fatal msg))"
    and m: "m = (case connect be ep opts \<lparr>minioClient = None, bucketName = b, mux = []\<rparr> w0 of
             None \<Rightarrow> None
           | Some (g1, w1) \<Rightarrow>
               (case ensure g1 (emit (Log ''Connected to MinIO'') w1) of
                  (Some out, w2) \<Rightarrow> Some (out, w2)
                | (None, w2) \<Rightarrow> Some (routes_and_listen e g1 w2)))"
    and s: "serve_after be rs m = Some (oc, out, w2)"
  shows "phased False (trace w2) \<and>
         (case oc of
            Serving g \<Rightarrow> minioClient g \<noteq> None \<and>
                         bucket_confirmed (bucketName g) (before_listen (trace w2)) \<and>
                         mux g = [(''/upload'', UploadH), (''/download'', DownloadH), (''/list'', ListH)]
          | _ \<Rightarrow> out = [])"
proof -
  from s m obtain g1 w1 where
    cn: "connect be ep opts \<lparr>minioClient = None, bucketName = b, mux = []\<rparr> w0 = Some (g1, w1)"
    by (auto simp: serve_after_def split: option.splits)
  from connect_result [OF cn] obtain c ev1 where
    g1: "g1 = \<lparr>minioClient = Some c, bucketName = b, mux = []\<rparr>"
    and t1: "trace w1 = trace w0 @ ev1" and s1: "list_all startup_event ev1"
    by auto
  define wc where "wc = emit (Log ''Connected to MinIO'') w1"
  have tc: "trace wc = pre0 @ ev1 @ [Log ''Connected to MinIO'']"
    by (simp add: wc_def emit_def t1 tw)
  from g1 have "minioClient g1 \<noteq> None" by simp
  from ens [OF this, of wc] obtain ev2 where
    t2: "trace (snd (ensure g1 wc)) = trace wc @ ev2" and s2: "list_all startup_event ev2"
    and cf: "fst (ensure g1 wc) = None \<longrightarrow> bucket_confirmed (bucketName g1) ev2"
    and ft: "\<forall>oc. fst (ensure g1 wc) = Some oc \<longrightarrow> (\<exists>msg. oc = Fatal msg)"
    by (elim exE conjE) (rule that)
  obtain x wb where en: "ensure g1 wc = (x, wb)" by (cases "ensure g1 wc")
  define pre where "pre = pre0 @ ev1 @ [Log ''Connected to MinIO''] @ ev2"
  have tb: "trace wb = pre" using t2 en tc by (simp add: pre_def)
  have sp: "list_all startup_event pre" using p0 s1 s2 by (simp add: pre_def)
  show ?thesis
  proof (cases x)
    case (Some o1)
    with ft en obtain msg where "o1 = Fatal msg" by auto
    with s m cn en Some have "oc = Fatal msg" "out = []" "w2 = wb"
      by (simp_all add: serve_after_def wc_def)
    then show ?thesis using tb sp phased_startup [OF sp, of "[]"] by simp
  next
    case None
    with cf en have conf: "bucket_confirmed b ev2" using g1 by simp
    from routes_and_listen_result [of e g1 wb] obtain o2 where
      rl: "routes_and_listen e g1 wb =
          (o2, \<lparr>bstate = bstate wb, trace = trace wb @ route_events @ [Call_ListenAndServe '':8080'']\<rparr>)"
      and o2: "o2 = Serving (g1\<lparr>mux := mux g1 @ [(''/upload'', UploadH), (''/download'', DownloadH),
                                         (''/list'', ListH)]\<rparr>) \<or> (\<exists>msg. o2 = Fatal msg)"
      by blast
    define wl where "wl = \<lparr>bstate = bstate wb, trace = trace wb @ route_events @ [Call_ListenAndServe '':8080'']\<rparr>"
    have mm: "m = Some (o2, wl)"
      using m cn en None rl by (simp add: wc_def wl_def)
    have sr: "list_all startup_event (pre @ route_events)"
      using sp by (simp add: route_events_def)
    have tl: "trace wl = (pre @ route_events) @ Call_ListenAndServe '':8080'' # []"
      by (simp add: wl_def tb)
    from o2 show ?thesis
    proof
      assume sv: "o2 = Serving (g1\<lparr>mux := mux g1 @ [(''/upload'', UploadH), (''/download'', DownloadH),
                                         (''/list'', ListH)]\<rparr>)"
      from serve_requests_trace [of be "g1\<lparr>mux := mux g1 @ [(''/upload'', UploadH), (''/download'', DownloadH),
                                         (''/list'', ListH)]\<rparr>" rs wl]
      obtain post where
        tp: "trace (snd (serve_requests be (g1\<lparr>mux := mux g1 @ [(''/upload'', UploadH), (''/download'', DownloadH),
                                         (''/list'', ListH)]\<rparr>) rs wl)) = trace wl @ post"
        and rp: "list_all request_event post" by blast
      from s mm sv have oc: "oc = o2"
        and w2: "w2 = snd (serve_requests be (g1\<lparr>mux := mux g1 @ [(''/upload'', UploadH), (''/download'', DownloadH),
                                         (''/list'', ListH)]\<rparr>) rs wl)"
        by (auto simp: serve_after_def split: prod.splits)
      have t2': "trace w2 = (pre @ route_events) @ Call_ListenAndServe '':8080'' # post"
        using tp tl w2 by simp
      have ph: "phased False (trace w2)"
        unfolding t2' phased_startup [OF sr] using phased_requests [OF rp] by simp
      have bl: "before_listen (trace w2) = pre @ route_events"
        unfolding t2' by (rule before_listen_startup [OF sr])
      have "bucket_confirmed b (pre @ route_events)"
        using conf by (auto simp: bucket_confirmed_def pre_def)
      then show ?thesis using ph bl oc sv g1 by simp
    next
      assume "\<exists>msg. o2 = Fatal msg"
      then obtain msg where f: "o2 = Fatal msg" by blast
      with s mm have "oc = Fatal msg" "out = []" "w2 = wl" by (simp_all add: serve_after_def)
      then show ?thesis using tl phased_startup [OF sr, of "[Call_ListenAndServe '':8080'']"] by simp
    qed
  qed
qed

text \<open>
  C7. A process that starts with an empty trace, runs \<^verbatim>\<open>main\<close> of either file, and
  then serves the requests \<open>rs\<close>. In its trace \<^verbatim>\<open>ListenAndServe\<close> is called at most
  once, every event before the call is an event of start-up, and every event after it
  is an event of a request handler. When the outcome is the listener serving, the
  client is not nil, the three routes are registered, and before the call of
  \<^verbatim>\<open>ListenAndServe\<close> the bucket was seen to exist or was made without error. With any
  other outcome no request is served.
\<close>

theorem listener_starts_after_bucket_is_confirmed:
  assumes "trace w = []"
    and "m = main be e w \<or> m = main_part_000 be e w"
    and "serve_after be rs m = Some (oc, out, w2)"
  shows "phased False (trace w2) \<and>
         (case oc of
            Serving g \<Rightarrow> minioClient g \<noteq> None \<and>
                         bucket_confirmed (bucketName g) (before_listen (trace w2)) \<and>
                         mux g = [(''/upload'', UploadH), (''/download'', DownloadH), (''/list'', ListH)]
          | _ \<Rightarrow> out = [])"
  using assms(2)
proof
  assume m: "m = main be e w"
  obtain lerr vars where l: "godotenv_Load e (environ e) = (lerr, vars)"
    by (cases "godotenv_Load e (environ e)")
  define w0 where "w0 = (case lerr of Some _ \<Rightarrow> emit (Log ''No .env file found or failed to load it'') w
               | None \<Rightarrow> w)"
  have t0: "trace w0 = (case lerr of Some _ \<Rightarrow> [Log ''No .env file found or failed to load it''] | None \<Rightarrow> [])"
    using assms(1) by (simp add: w0_def emit_def split: option.splits)
  have s0: "list_all startup_event (case lerr of Some _ \<Rightarrow> [Log ''No .env file found or failed to load it''] | None \<Rightarrow> [])"
    by (simp split: option.splits)
  show ?thesis
  proof (cases "config_of vars")
    case None
    with m assms(3) have "oc = Fatal ''One or more required environment variables are missing''"
      "out = []" "w2 = w0"
      by (simp_all add: main_unfold [OF l w0_def] serve_after_def)
    then show ?thesis using t0 phased_startup [OF s0, of "[]"] by simp
  next
    case (Some cfg)
    obtain ep opts b where cfg: "cfg = (ep, opts, b)" by (cases cfg)
    have ens: "\<exists>ev. trace (snd (bucket_loop be g1 0 w1)) = trace w1 @ ev \<and> list_all startup_event ev \<and>
              (fst (bucket_loop be g1 0 w1) = None \<longrightarrow> bucket_confirmed (bucketName g1) ev) \<and>
              (\<forall>oc. fst (bucket_loop be g1 0 w1) = Some oc \<longrightarrow> (\<exists>msg. oc = Fatal msg))"
      if "minioClient g1 \<noteq> None" for g1 w1
    proof -
      from that obtain c where c: "minioClient g1 = Some c" by auto
      from bucket_loop_trace [OF c, of 0 10 be w1] show ?thesis by auto
    qed
    have mm: "m = (case connect be ep opts \<lparr>minioClient = None, bucketName = b, mux = []\<rparr> w0 of
             None \<Rightarrow> None
           | Some (g1, w1) \<Rightarrow>
               (case bucket_loop be g1 0 (emit (Log ''Connected to MinIO'') w1) of
                  (Some out, w2) \<Rightarrow> Some (out, w2)
                | (None, w2) \<Rightarrow> Some (routes_and_listen e g1 w2)))"
      using m Some cfg by (simp add: main_unfold [OF l w0_def])
    from startup_shape [of w0 _ "\<lambda>g1 w1. bucket_loop be g1 0 w1", OF t0 s0 ens mm assms(3)]
    show ?thesis .
  qed
next
  assume m: "m = main_part_000 be e w"
  have s0: "list_all startup_event []" by simp
  show ?thesis
  proof (cases "config_of (environ e)")
    case None
    with m assms(3) have "oc = Fatal ''One or more required environment variables are missing''"
      "out = []" "w2 = w"
      by (simp_all add: main_part_000_unfold serve_after_def)
    then show ?thesis using assms(1) by simp
  next
    case (Some cfg)
    obtain ep opts b where cfg: "cfg = (ep, opts, b)" by (cases cfg)
    have ens: "\<exists>ev. trace (snd (bucket_once be g1 w1)) = trace w1 @ ev \<and> list_all startup_event ev \<and>
              (fst (bucket_once be g1 w1) = None \<longrightarrow> bucket_confirmed (bucketName g1) ev) \<and>
              (\<forall>oc. fst (bucket_once be g1 w1) = Some oc \<longrightarrow> (\<exists>msg. oc = Fatal msg))"
      if "minioClient g1 \<noteq> None" for g1 w1
    proof -
      from that obtain c where c: "minioClient g1 = Some c" by auto
      from bucket_once_trace [OF c, of be w1] show ?thesis by auto
    qed
    have mm: "m = (case connect be ep opts \<lparr>minioClient = None, bucketName = b, mux = []\<rparr> w of
             None \<Rightarrow> None
           | Some (g1, w1) \<Rightarrow>
               (case bucket_once be g1 (emit (Log ''Connected to MinIO'') w1) of
                  (Some out, w2) \<Rightarrow> Some (out, w2)
                | (None, w2) \<Rightarrow> Some (routes_and_listen e g1 w2)))"
      using m Some cfg by (simp add: main_part_000_unfold)
    from startup_shape [of w _ "\<lambda>g1 w1. bucket_once be g1 w1", OF assms(1) s0 ens mm assms(3)]
    show ?thesis .
  qed
qed

subsection \<open>The start-up properties on the backend in memory\<close>

lemma mem_exists_refused:
  "j < exists_failures s \<Longrightarrow>
     BucketExists_attempt mem_backend c b s j = Inl ''connection refused''"
proof (induction j arbitrary: s)
  case 0
  then show ?case by (simp add: BucketExists_attempt_def mem_backend_def mem_BucketExists_def)
next
  case (Suc j)
  have "BucketExists_attempt mem_backend c b s (Suc j) =
          BucketExists_attempt mem_backend c b (s\<lparr>exists_failures := exists_failures s - 1\<rparr>) j"
    using Suc.prems by (simp add: BucketExists_attempt_def mem_backend_def mem_BucketExists_def)
  also have "\<dots> = Inl ''connection refused''"
    using Suc.prems by (intro Suc.IH) simp
  finally show ?case .
qed

lemma mem_exists_answered:
  "BucketExists_attempt mem_backend c b s (exists_failures s) = Inr (b \<in> set (buckets s)) \<and>
   BucketExists_state mem_backend c b s (Suc (exists_failures s)) = s\<lparr>exists_failures := 0\<rparr>"
proof (induction "exists_failures s" arbitrary: s)
  case 0
  then show ?case by (simp add: BucketExists_attempt_def mem_backend_def mem_BucketExists_def)
next
  case (Suc n)
  from Suc(2) have n: "n = exists_failures (s\<lparr>exists_failures := exists_failures s - 1\<rparr>)" by simp
  from Suc(1) [OF n] Suc(2) [symmetric] show ?case
    by (simp add: BucketExists_attempt_def mem_backend_def mem_BucketExists_def)
qed

theorem existing_bucket_is_left_alone_witness:
  "fst (bucket_loop mem_backend g0 0 (mem_start 0 2 [''bkt''])) = None \<and>
   filter is_MakeBucket (added (mem_start 0 2 [''bkt''])
     (snd (bucket_loop mem_backend g0 0 (mem_start 0 2 [''bkt''])))) = [] \<and>
   buckets (bstate (snd (bucket_loop mem_backend g0 0 (mem_start 0 2 [''bkt''])))) = [''bkt'']"
proof -
  have c: "minioClient g0 = Some ()" by (simp add: g0_def)
  have h1: "\<forall>j<2. isl (BucketExists_attempt mem_backend () (bucketName g0)
                         (bstate (mem_start 0 2 [''bkt''])) j)"
    by (simp add: mem_exists_refused mem_start_def)
  have h2: "BucketExists_attempt mem_backend () (bucketName g0)
              (bstate (mem_start 0 2 [''bkt''])) 2 = Inr True"
    using mem_exists_answered [of "()" "bucketName g0" "bstate (mem_start 0 2 [''bkt''])"]
    by (simp add: mem_start_def g0_def)
  show ?thesis
    using existing_bucket_is_left_alone [OF c h1 h2]
      mem_exists_answered [of "()" "bucketName g0" "bstate (mem_start 0 2 [''bkt''])"]
    by (simp add: mem_start_def)
qed

theorem bucket_check_is_bounded_witness:
  "fst (bucket_loop mem_backend g0 0 (mem_start 0 10 [])) =
     Some (Fatal ''Failed to connect to MinIO after 10 attempts: connection refused'') \<and>
   length (filter is_BucketExists (added (mem_start 0 10 [])
     (snd (bucket_loop mem_backend g0 0 (mem_start 0 10 []))))) = 10 \<and>
   spaced False (added (mem_start 0 10 []) (snd (bucket_loop mem_backend g0 0 (mem_start 0 10 []))))"
proof -
  have c: "minioClient g0 = Some ()" by (simp add: g0_def)
  have h: "\<forall>j<10. isl (BucketExists_attempt mem_backend () (bucketName g0)
                         (bstate (mem_start 0 10 [])) j)"
    by (simp add: mem_exists_refused mem_start_def)
  have l: "projl (BucketExists_attempt mem_backend () (bucketName g0)
                         (bstate (mem_start 0 10 [])) 9) = ''connection refused''"
    by (simp add: mem_exists_refused mem_start_def)
  show ?thesis
    using bucket_check_is_bounded [OF c, of "mem_start 0 10 []" mem_backend] h l
    by simp
qed

theorem connect_retries_without_bound_witness:
  "main refusing_backend env0 (mem_start 0 0 []) = None \<and>
   main_part_000 refusing_backend env0 (mem_start 0 0 []) = None \<and>
   map_option (\<lambda>p. trace (snd p))
     (connect mem_backend ''minio:9000'' (client_options ''ak'' ''sk'')
        \<lparr>minioClient = None, bucketName = ''bkt'', mux = []\<rparr> (mem_start 2 0 [])) =
     Some (connect_retry ''minio:9000'' (client_options ''ak'' ''sk'') ''connection refused''
           @ connect_retry ''minio:9000'' (client_options ''ak'' ''sk'') ''connection refused''
           @ [Call_New ''minio:9000'' (client_options ''ak'' ''sk'') None])"
proof -
  have cfg: "config_of (environ env0) = Some (''minio:9000'', client_options ''ak'' ''sk'', ''bkt'')"
    by (simp add: config_of_def env0_def Getenv_def)
  have cfg': "config_of (snd (godotenv_Load env0 (environ env0)))
                = Some (''minio:9000'', client_options ''ak'' ''sk'', ''bkt'')"
    using cfg by (simp add: env0_def)
  have r: "\<forall>n. isl (New_attempt refusing_backend ''minio:9000'' (client_options ''ak'' ''sk'')
                      (bstate (mem_start 0 0 [])) n)"
    by (simp add: refusing_always)
  have a: "\<forall>i<2. isl (New_attempt mem_backend ''minio:9000'' (client_options ''ak'' ''sk'')
                      (bstate (mem_start 2 0 [])) i)"
    by (simp add: less_2_cases_iff New_attempt_def mem_backend_def mem_New_def mem_start_def)
  have b: "New_attempt mem_backend ''minio:9000'' (client_options ''ak'' ''sk'')
                      (bstate (mem_start 2 0 [])) 2 = Inr ()"
    by (simp add: numeral_2_eq_2 New_attempt_def mem_backend_def mem_New_def mem_start_def)
  have p: "\<And>i. i < 2 \<Longrightarrow> projl (New_attempt mem_backend ''minio:9000'' (client_options ''ak'' ''sk'')
                      (bstate (mem_start 2 0 [])) i) = ''connection refused''"
    by (auto simp: less_2_cases_iff New_attempt_def mem_backend_def mem_New_def mem_start_def)
  show ?thesis
    using connect_retries_without_bound
            [of 2 mem_backend "''minio:9000''" "client_options ''ak'' ''sk''" "mem_start 2 0 []" "()"
                "\<lparr>minioClient = None, bucketName = ''bkt'', mux = []\<rparr>"]
          connect_retries_without_bound
            [of _ refusing_backend "''minio:9000''" "client_options ''ak'' ''sk''" "mem_start 0 0 []" _
                _ env0 "''bkt''"]
          cfg cfg' r a b p
    by (simp add: numeral_2_eq_2 mem_start_def)
qed



theorem listener_starts_after_bucket_is_confirmed_witness:
  "phased False (trace (snd (snd (the
     (serve_after mem_backend reqs0 (main mem_backend env0 (mem_start 1 1 []))))))) \<and>
   bucket_confirmed ''bkt'' (before_listen (trace (snd (snd (the
     (serve_after mem_backend reqs0 (main mem_backend env0 (mem_start 1 1 [])))))))) \<and>
   map_option body (last (fst (snd (the
     (serve_after mem_backend reqs0 (main mem_backend env0 (mem_start 1 1 []))))))) = Some ''hi''"
proof -
  have t: "trace (mem_start 1 1 []) = []" by (simp add: mem_start_def)
  have x: "fst (the (serve_after mem_backend reqs0 (main mem_backend env0 (mem_start 1 1 [])))) =
             Serving \<lparr>minioClient = Some (), bucketName = ''bkt'',
                      mux = [(''/upload'', UploadH), (''/download'', DownloadH), (''/list'', ListH)]\<rparr>"
    by code_simp
  have n: "serve_after mem_backend reqs0 (main mem_backend env0 (mem_start 1 1 [])) \<noteq> None"
    by code_simp
  then have s: "serve_after mem_backend reqs0 (main mem_backend env0 (mem_start 1 1 [])) =
     Some (fst (the (serve_after mem_backend reqs0 (main mem_backend env0 (mem_start 1 1 [])))),
           fst (snd (the (serve_after mem_backend reqs0 (main mem_backend env0 (mem_start 1 1 []))))),
           snd (snd (the (serve_after mem_backend reqs0 (main mem_backend env0 (mem_start 1 1 []))))))"
    by auto
  have b: "map_option body (last (fst (snd (the
     (serve_after mem_backend reqs0 (main mem_backend env0 (mem_start 1 1 []))))))) = Some ''hi''"
    by code_simp
  show ?thesis
    using listener_starts_after_bucket_is_confirmed [OF t disjI1 [OF refl] s] x b
    by simp
qed

end
